theory Spec2Isabelle
  imports Complex_Main "HOL-Library.Word" "HOL-Library.Sublist"
begin

unbundle bit_operations_syntax

section \<open>Return codes\<close>

text \<open>
  The C functions return \<open>0\<close> on success and a negative \<open>MSP_ERR_*\<close> code on failure.
  The numeric values live in \<open>err.h\<close>; only the identity of each code matters here, so
  they form a datatype. \<open>MSP_ERR_LIBRARY c\<close> stands for any other nonzero code \<open>c\<close> that
  a collaborator (tree iterator, leaf-list query) hands back and that the functions below
  pass on unchanged. Two more values are not return codes: \<open>ASSERTION_FAILED\<close> is a
  failing \<open>assert\<close> (the process aborts), \<open>MEMORY_FAULT\<close> is a read or write outside an
  allocated array (undefined behaviour in C).
\<close>

datatype error =
    MSP_ERR_NO_MEMORY
  | MSP_ERR_BAD_PARAM_VALUE
  | MSP_ERR_OUT_OF_BOUNDS
  | MSP_ERR_NONBINARY_MUTATIONS_UNSUPPORTED
  | MSP_ERR_INCONSISTENT_MUTATIONS
  | MSP_ERR_LIBRARY int
  | ASSERTION_FAILED
  | MEMORY_FAULT

section \<open>Machine types\<close>

text \<open>
  \<open>node_id_t\<close> is \<open>int32_t\<close>, the matrix words are \<open>uint64_t\<close>. Quantities of type
  \<open>size_t\<close> are natural numbers, and their sums and products are not reduced modulo
  \<open>2 ^ 64\<close>: for the sizes at hand (a matrix that has been allocated, the indices into it)
  the C arithmetic does not wrap either. Two conversions are written out. A \<open>node_id_t\<close>
  cast to \<open>size_t\<close> wraps: a negative value becomes \<open>2 ^ 64\<close> plus that value. A \<open>size_t\<close>
  cast to \<open>node_id_t\<close> is reduced modulo \<open>2 ^ 32\<close> and read as two's complement; for a
  value of \<open>2 ^ 31\<close> or more C leaves the result to the implementation, and this is what
  the usual compilers do. A word index computed from a wrapped row lies beyond the
  matrix here; in C the index is reduced modulo \<open>2 ^ 64\<close> once more, which leaves it
  beyond the matrix as long as there are fewer than \<open>2 ^ 38\<close> mutations.
\<close>

type_synonym node_id_t = "32 word"
type_synonym uint64_t = "64 word"

definition HG_WORD_SIZE :: nat where
  "HG_WORD_SIZE = 64"

definition size_t_of_node :: "node_id_t \<Rightarrow> nat" where
  "size_t_of_node n = nat (sint n mod 2 ^ 64)"

definition node_of_size_t :: "nat \<Rightarrow> node_id_t" where
  "node_of_size_t n = word_of_nat n"

section \<open>The genealogy as the haplotype generator sees it\<close>

text \<open>
  \<open>mutation_t\<close> as \<open>hapgen.c\<close> uses it: the column \<open>index\<close> of the mutation and the array
  \<open>nodes\<close> of \<open>num_nodes\<close> node ids (\<open>num_nodes\<close> is the length of the list).
\<close>

record mutation_t =
  mut_index :: nat
  mut_nodes :: "node_id_t list"

text \<open>
  Modelled from the spec: the local-tree iterator (\<open>sparse_tree_first\<close>,
  \<open>sparse_tree_next\<close>, \<open>sparse_tree_get_leaf_list\<close>) is not among the sources. A local
  tree offers its mutation list and the leaf-list query: for a node, either an error
  code or the sample ids met when walking from the head \<open>w\<close> along \<open>next\<close> up to and
  including \<open>tail\<close> (the empty list when the head is \<open>NULL\<close>).
\<close>

record sparse_tree_t =
  tree_mutations :: "mutation_t list"
  leaf_list :: "node_id_t \<Rightarrow> error + node_id_t list"

text \<open>
  Modelled from the spec: the tree sequence (\<open>tree_sequence_t\<close> and its accessors) is
  not among the sources. It reports the sample count, the mutation count and the
  number of records of its mutation-type table; \<open>sparse_tree_alloc\<close> on it returns
  \<open>ts_sparse_tree_alloc\<close> (\<open>None\<close> is 0); the iterator visits \<open>ts_trees\<close> from left to
  right (\<open>sparse_tree_first\<close> and \<open>sparse_tree_next\<close> returning 1) and then returns
  \<open>ts_iter_end\<close> (\<open>None\<close> is 0, otherwise the code that ends the iteration).
\<close>

record tree_sequence_t =
  ts_sample_size :: nat
  ts_num_mutations :: nat
  ts_mutation_types_num_records :: nat
  ts_sparse_tree_alloc :: "error option"
  ts_trees :: "sparse_tree_t list"
  ts_iter_end :: "error option"

section \<open>The haplotype generator (hapgen.c)\<close>

text \<open>
  \<open>hapgen_t\<close>: the matrix is the \<open>calloc\<close>ed array of words, \<open>haplotype_size\<close> is the
  number of bytes \<open>malloc\<close>ed for the output buffer \<open>haplotype\<close>. The fields the
  functions below only store (\<open>sequence_length\<close>, \<open>tree_sequence\<close>) are left out, and the
  tree iterator \<open>tree\<close> is passed to the functions that read it.
\<close>

record hapgen_t =
  sample_size :: nat
  num_mutations :: nat
  words_per_row :: nat
  haplotype_matrix :: "uint64_t list"
  haplotype_size :: nat

definition hapgen_set_bit :: "hapgen_t \<Rightarrow> nat \<Rightarrow> nat \<Rightarrow> error + hapgen_t" where
  "hapgen_set_bit self row column =
     (let word = column div HG_WORD_SIZE;
          bit = column mod HG_WORD_SIZE;
          index = row * words_per_row self + word
      in if \<not> word < words_per_row self then Inl ASSERTION_FAILED
         else if \<not> index < length (haplotype_matrix self) then Inl MEMORY_FAULT
         else if (haplotype_matrix self ! index) AND (push_bit bit 1) \<noteq> 0
           then Inl MSP_ERR_INCONSISTENT_MUTATIONS
         else Inr (self\<lparr>haplotype_matrix :=
                (haplotype_matrix self)
                  [index := (haplotype_matrix self ! index) OR (push_bit bit 1)]\<rparr>))"

text \<open>
  The \<open>while (not_done)\<close> loop of \<open>hapgen_apply_tree_mutation\<close>: one \<open>hapgen_set_bit\<close>
  per element of the leaf list, stopping at the first failure.
\<close>

fun hapgen_set_leaves :: "hapgen_t \<Rightarrow> node_id_t list \<Rightarrow> nat \<Rightarrow> error + hapgen_t" where
  "hapgen_set_leaves self [] column = Inr self"
| "hapgen_set_leaves self (w # ws) column =
     (case hapgen_set_bit self (size_t_of_node w) column of
        Inl e \<Rightarrow> Inl e
      | Inr self' \<Rightarrow> hapgen_set_leaves self' ws column)"

text \<open>The \<open>for (j = 0; j < mut->num_nodes; j++)\<close> loop.\<close>

fun hapgen_apply_nodes ::
  "hapgen_t \<Rightarrow> sparse_tree_t \<Rightarrow> node_id_t list \<Rightarrow> nat \<Rightarrow> error + hapgen_t" where
  "hapgen_apply_nodes self t [] column = Inr self"
| "hapgen_apply_nodes self t (u # us) column =
     (case leaf_list t u of
        Inl e \<Rightarrow> Inl e
      | Inr ws \<Rightarrow>
          (case hapgen_set_leaves self ws column of
             Inl e \<Rightarrow> Inl e
           | Inr self' \<Rightarrow> hapgen_apply_nodes self' t us column))"

definition hapgen_apply_tree_mutation ::
  "hapgen_t \<Rightarrow> sparse_tree_t \<Rightarrow> mutation_t \<Rightarrow> error + hapgen_t" where
  "hapgen_apply_tree_mutation self t mut =
     hapgen_apply_nodes self t (mut_nodes mut) (mut_index mut)"

text \<open>The inner loop of \<open>hapgen_generate_all_haplotypes\<close>, over the mutations of one tree.\<close>

fun hapgen_apply_mutations ::
  "hapgen_t \<Rightarrow> sparse_tree_t \<Rightarrow> mutation_t list \<Rightarrow> error + hapgen_t" where
  "hapgen_apply_mutations self t [] = Inr self"
| "hapgen_apply_mutations self t (m # ms) =
     (case hapgen_apply_tree_mutation self t m of
        Inl e \<Rightarrow> Inl e
      | Inr self' \<Rightarrow> hapgen_apply_mutations self' t ms)"

text \<open>The outer loop, over the trees the iterator visits.\<close>

fun hapgen_apply_trees :: "hapgen_t \<Rightarrow> sparse_tree_t list \<Rightarrow> error + hapgen_t" where
  "hapgen_apply_trees self [] = Inr self"
| "hapgen_apply_trees self (t # ts) =
     (case hapgen_apply_mutations self t (tree_mutations t) of
        Inl e \<Rightarrow> Inl e
      | Inr self' \<Rightarrow> hapgen_apply_trees self' ts)"

definition hapgen_generate_all_haplotypes ::
  "hapgen_t \<Rightarrow> tree_sequence_t \<Rightarrow> error + hapgen_t" where
  "hapgen_generate_all_haplotypes self tree_sequence =
     (case hapgen_apply_trees self (ts_trees tree_sequence) of
        Inl e \<Rightarrow> Inl e
      | Inr self' \<Rightarrow>
          (case ts_iter_end tree_sequence of
             Some e \<Rightarrow> Inl e
           | None \<Rightarrow> Inr self'))"

text \<open>
  \<open>hapgen_alloc\<close>. The flag \<open>heap_ok\<close> says whether \<open>calloc\<close> and \<open>malloc\<close> both return a
  block.
\<close>

definition hapgen_alloc :: "bool \<Rightarrow> tree_sequence_t \<Rightarrow> error + hapgen_t" where
  "hapgen_alloc heap_ok tree_sequence =
     (if ts_num_mutations tree_sequence > 0
         \<and> ts_mutation_types_num_records tree_sequence \<noteq> 1
      then Inl MSP_ERR_NONBINARY_MUTATIONS_UNSUPPORTED
      else case ts_sparse_tree_alloc tree_sequence of
        Some e \<Rightarrow> Inl e
      | None \<Rightarrow>
         (let wpr = ts_num_mutations tree_sequence div HG_WORD_SIZE + 1;
              self = \<lparr>sample_size = ts_sample_size tree_sequence,
                      num_mutations = ts_num_mutations tree_sequence,
                      words_per_row = wpr,
                      haplotype_matrix = replicate (wpr * ts_sample_size tree_sequence) 0,
                      haplotype_size = wpr * HG_WORD_SIZE + 1\<rparr>
          in if \<not> heap_ok then Inl MSP_ERR_NO_MEMORY
             else hapgen_generate_all_haplotypes self tree_sequence))"

text \<open>
  \<open>hapgen_get_haplotype\<close>. The inner loop writes the 64 characters of one word, low bit
  first; the outer loop appends them for the words of the row. The buffer is the list
  of characters written so far (\<open>l\<close> is its length).
\<close>

definition hapgen_word_chars :: "uint64_t \<Rightarrow> string" where
  "hapgen_word_chars word =
     map (\<lambda>k. if (drop_bit k word) AND 1 \<noteq> 0 then CHR ''1'' else CHR ''0'')
       [0..<HG_WORD_SIZE]"

function hapgen_get_haplotype_loop ::
  "hapgen_t \<Rightarrow> nat \<Rightarrow> nat \<Rightarrow> string \<Rightarrow> error + string" where
  "hapgen_get_haplotype_loop self row j buf =
     (if j < words_per_row self then
        (let word_index = row * words_per_row self + j
         in if \<not> word_index < length (haplotype_matrix self) then Inl MEMORY_FAULT
            else if \<not> length buf + HG_WORD_SIZE \<le> haplotype_size self then Inl MEMORY_FAULT
            else hapgen_get_haplotype_loop self row (j + 1)
                   (buf @ hapgen_word_chars (haplotype_matrix self ! word_index)))
      else Inr buf)"
  by pat_completeness auto
termination
  by (relation "measure (\<lambda>(self, row, j, buf). words_per_row self - j)") auto

text \<open>The guard \<open>sample_id >= (node_id_t) self->sample_size\<close>.\<close>

definition hapgen_sample_out_of_bounds :: "hapgen_t \<Rightarrow> node_id_t \<Rightarrow> bool" where
  "hapgen_sample_out_of_bounds self sample_id =
     (sint (node_of_size_t (sample_size self)) \<le> sint sample_id)"

text \<open>
  After the loops the terminating NUL is stored at offset \<open>num_mutations\<close>; the C string
  handed back is what precedes it.
\<close>

definition hapgen_get_haplotype :: "hapgen_t \<Rightarrow> node_id_t \<Rightarrow> error + string" where
  "hapgen_get_haplotype self sample_id =
     (if hapgen_sample_out_of_bounds self sample_id
      then Inl MSP_ERR_OUT_OF_BOUNDS
      else case hapgen_get_haplotype_loop self (size_t_of_node sample_id) 0 [] of
        Inl e \<Rightarrow> Inl e
      | Inr buf \<Rightarrow>
          if num_mutations self < haplotype_size self \<and> num_mutations self \<le> length buf
          then Inr (take (num_mutations self) buf)
          else Inl MEMORY_FAULT)"

section \<open>The mutation generator (the newer of the two files of part_000)\<close>

text \<open>
  Positions, times and the mutation rate are C doubles. They are modelled as real
  numbers: the generator only subtracts and multiplies them to obtain the Poisson mean,
  which it hands to the random source, and compares positions; the order of finite
  doubles is the order of the reals they denote.
\<close>

text \<open>\<open>mutation_type_t\<close> and the two constant tables.\<close>

record mutation_type_t =
  ancestral_state :: string
  derived_state :: string

definition binary_mutation_types :: "mutation_type_t list" where
  "binary_mutation_types = [\<lparr>ancestral_state = ''0'', derived_state = ''1''\<rparr>]"

definition acgt_mutation_types :: "mutation_type_t list" where
  "acgt_mutation_types =
     [\<lparr>ancestral_state = ''A'', derived_state = ''C''\<rparr>,
      \<lparr>ancestral_state = ''A'', derived_state = ''G''\<rparr>,
      \<lparr>ancestral_state = ''A'', derived_state = ''T''\<rparr>,
      \<lparr>ancestral_state = ''C'', derived_state = ''A''\<rparr>,
      \<lparr>ancestral_state = ''C'', derived_state = ''G''\<rparr>,
      \<lparr>ancestral_state = ''C'', derived_state = ''T''\<rparr>,
      \<lparr>ancestral_state = ''G'', derived_state = ''A''\<rparr>,
      \<lparr>ancestral_state = ''G'', derived_state = ''C''\<rparr>,
      \<lparr>ancestral_state = ''G'', derived_state = ''T''\<rparr>,
      \<lparr>ancestral_state = ''T'', derived_state = ''A''\<rparr>,
      \<lparr>ancestral_state = ''T'', derived_state = ''C''\<rparr>,
      \<lparr>ancestral_state = ''T'', derived_state = ''G''\<rparr>]"

text \<open>
  Modelled from the spec: the constants of \<open>msprime.h\<close> are not among the sources. The
  binary alphabet is 0 (\<open>mutgen_generate\<close> tests \<open>self->alphabet == 0\<close>), the nucleotide
  alphabet is 1, and "no parent mutation" is -1.
\<close>

definition MSP_ALPHABET_BINARY :: int where
  "MSP_ALPHABET_BINARY = 0"

definition MSP_ALPHABET_NUCLEOTIDE :: int where
  "MSP_ALPHABET_NUCLEOTIDE = 1"

definition MSP_NULL_MUTATION :: int where
  "MSP_NULL_MUTATION = - 1"

text \<open>
  \<open>mutation_t\<close> and \<open>site_t\<close> as \<open>mutgen_add_mutation\<close> fills them (the array
  \<open>site->mutations\<close> of \<open>mutations_length\<close> entries is a list).
\<close>

record site_mutation_t =
  mutation_node :: node_id_t
  mutation_parent :: int
  mutation_derived_state :: string
  mutation_derived_state_length :: nat
  mutation_metadata :: string
  mutation_metadata_length :: nat

record site_t =
  site_position :: real
  site_ancestral_state :: string
  site_ancestral_state_length :: nat
  site_metadata :: string
  site_metadata_length :: nat
  site_mutations :: "site_mutation_t list"

text \<open>
  \<open>cmp_site\<close> compares two sites by position; it reads no other field, so it is given
  the positions.
\<close>

definition cmp_site :: "real \<Rightarrow> real \<Rightarrow> int" where
  "cmp_site a b = (if a > b then 1 else 0) - (if a < b then 1 else 0)"

text \<open>
  Modelled from the spec: the AVL tree of \<open>avl.h\<close> is not among the sources. The site
  index is the in-order sequence of its items (\<open>head\<close>, then \<open>next\<close>), ordered by
  \<open>cmp_site\<close>. \<open>avl_search\<close> finds the item that compares equal to the key;
  \<open>avl_insert_node\<close> puts the item at its place in the order and returns \<open>NULL\<close>,
  leaving the tree alone, when an equal item is there already.
\<close>

fun avl_search :: "site_t list \<Rightarrow> real \<Rightarrow> site_t option" where
  "avl_search [] key = None"
| "avl_search (s # ss) key =
     (if cmp_site key (site_position s) = 0 then Some s else avl_search ss key)"

fun avl_insert_node :: "site_t list \<Rightarrow> site_t \<Rightarrow> site_t list option" where
  "avl_insert_node [] item = Some [item]"
| "avl_insert_node (s # ss) item =
     (if cmp_site (site_position item) (site_position s) < 0 then Some (item # s # ss)
      else if cmp_site (site_position item) (site_position s) = 0 then None
      else map_option ((#) s) (avl_insert_node ss item))"

text \<open>
  Modelled from the spec: the arena (\<open>block_allocator_t\<close>) is not among the sources. It
  hands out blocks until memory runs out and is reset in bulk. \<open>arena_capacity\<close> is the
  number of blocks it can hand out between two resets, \<open>arena_used\<close> the number handed
  out since the last one; \<open>block_allocator_get\<close> returns whether the block is not
  \<open>NULL\<close>. \<open>block_allocator_alloc\<close> fails when the heap (\<open>None\<close>) has no memory.
\<close>

record block_allocator_t =
  chunk_size :: nat
  arena_capacity :: nat
  arena_used :: nat

definition block_allocator_alloc :: "nat option \<Rightarrow> nat \<Rightarrow> error + block_allocator_t" where
  "block_allocator_alloc heap block_size =
     (case heap of
        None \<Rightarrow> Inl MSP_ERR_NO_MEMORY
      | Some capacity \<Rightarrow>
          Inr \<lparr>chunk_size = block_size, arena_capacity = capacity, arena_used = 0\<rparr>)"

definition block_allocator_reset :: "block_allocator_t \<Rightarrow> block_allocator_t" where
  "block_allocator_reset a = a\<lparr>arena_used := 0\<rparr>"

definition block_allocator_get :: "block_allocator_t \<Rightarrow> bool \<times> block_allocator_t" where
  "block_allocator_get a =
     (if arena_used a < arena_capacity a then (True, a\<lparr>arena_used := arena_used a + 1\<rparr>)
      else (False, a))"

text \<open>
  Modelled from the spec: the random source is GSL's. \<open>gsl_ran_poisson\<close>,
  \<open>gsl_ran_flat\<close> and \<open>gsl_rng_uniform_int\<close> take the generator state and return the
  draw with the next state; nothing is assumed about the values they draw.
\<close>

record 'r gsl_rng =
  gsl_ran_poisson :: "'r \<Rightarrow> real \<Rightarrow> nat \<times> 'r"
  gsl_ran_flat :: "'r \<Rightarrow> real \<Rightarrow> real \<Rightarrow> real \<times> 'r"
  gsl_rng_uniform_int :: "'r \<Rightarrow> nat \<Rightarrow> nat \<times> 'r"

text \<open>\<open>mutgen_t\<close>: \<open>mutgen_rng\<close> is the state of the random source.\<close>

record 'r mutgen_t =
  mutgen_alphabet :: int
  mutgen_mutation_rate :: real
  mutgen_rng :: 'r
  mutgen_sites :: "site_t list"
  mutgen_allocator :: block_allocator_t

definition mutgen_alloc ::
  "nat option \<Rightarrow> real \<Rightarrow> 'r \<Rightarrow> int \<Rightarrow> nat \<Rightarrow> error + 'r mutgen_t" where
  "mutgen_alloc heap mutation_rate rng alphabet block_size =
     (if \<not> (alphabet = MSP_ALPHABET_BINARY \<or> alphabet = MSP_ALPHABET_NUCLEOTIDE)
      then Inl MSP_ERR_BAD_PARAM_VALUE
      else
        (let block_size1 = (if block_size = 0 then 8192 else block_size);
             block_size2 = max block_size1 128
         in case block_allocator_alloc heap block_size2 of
              Inl e \<Rightarrow> Inl e
            | Inr a \<Rightarrow>
                Inr \<lparr>mutgen_alphabet = alphabet, mutgen_mutation_rate = mutation_rate,
                     mutgen_rng = rng, mutgen_sites = [], mutgen_allocator = a\<rparr>))"

text \<open>
  The older file of part_000 holds an earlier interface of the generator. Its
  constructor takes no block size; the block size is set afterwards by
  \<open>mutgen_set_mutation_block_size\<close>. Of its \<open>mutgen_t\<close> only the fields next to the one
  that function writes are kept.
\<close>

record mutgen_v1_t =
  v1_mutation_rate :: real
  v1_mutation_block_size :: nat
  v1_max_num_mutations :: nat

definition mutgen_set_mutation_block_size :: "mutgen_v1_t \<Rightarrow> nat \<Rightarrow> error + mutgen_v1_t" where
  "mutgen_set_mutation_block_size self mutation_block_size =
     (if mutation_block_size = 0 then Inl MSP_ERR_BAD_PARAM_VALUE
      else Inr (self\<lparr>v1_mutation_block_size := mutation_block_size\<rparr>))"

text \<open>
  \<open>mutgen_add_mutation\<close>: the result is the return code (\<open>None\<close> is 0) and the generator
  state left behind. \<open>mutgen_new_site\<close> is the site, with its one mutation, that the function
  fills in after the two \<open>memset\<close>s.
\<close>

definition mutgen_new_site :: "node_id_t \<Rightarrow> real \<Rightarrow> string \<Rightarrow> string \<Rightarrow> site_t" where
  "mutgen_new_site node position ancestral derived =
     \<lparr>site_position = position, site_ancestral_state = ancestral,
      site_ancestral_state_length = 1, site_metadata = [], site_metadata_length = 0,
      site_mutations =
        [\<lparr>mutation_node = node, mutation_parent = MSP_NULL_MUTATION,
          mutation_derived_state = derived, mutation_derived_state_length = 1,
          mutation_metadata = [], mutation_metadata_length = 0\<rparr>]\<rparr>"

definition mutgen_add_mutation ::
  "'r mutgen_t \<Rightarrow> node_id_t \<Rightarrow> real \<Rightarrow> string \<Rightarrow> string \<Rightarrow> error option \<times> 'r mutgen_t" where
  "mutgen_add_mutation self node position ancestral derived =
     (let (site_ok, a1) = block_allocator_get (mutgen_allocator self);
          (mutation_ok, a2) = block_allocator_get a1;
          (avl_node_ok, a3) = block_allocator_get a2;
          self1 = self\<lparr>mutgen_allocator := a3\<rparr>
      in if \<not> site_ok \<or> \<not> mutation_ok \<or> \<not> avl_node_ok then (Some MSP_ERR_NO_MEMORY, self1)
         else
           (case avl_insert_node (mutgen_sites self1)
                   (mutgen_new_site node position ancestral derived) of
              None \<Rightarrow> (Some ASSERTION_FAILED, self1)
            | Some sites' \<Rightarrow> (None, self1\<lparr>mutgen_sites := sites'\<rparr>)))"

text \<open>
  Modelled from the spec: the tables (\<open>tables.c\<close>) are not among the sources. A table is
  its rows, appended one at a time; \<open>site_capacity\<close> and \<open>mutation_capacity\<close> are the
  numbers of rows the table can grow to before memory runs out. \<open>add_row\<close> copies the
  given number of characters of each state and returns the id of the new row, or
  \<open>MSP_ERR_NO_MEMORY\<close>; \<open>clear\<close> drops the rows and returns 0.
\<close>

record site_row_t =
  row_position :: real
  row_ancestral_state :: string
  row_site_metadata :: string

record mutation_row_t =
  row_site :: nat
  row_node :: node_id_t
  row_parent :: int
  row_derived_state :: string
  row_mutation_metadata :: string

record site_table_t =
  site_rows :: "site_row_t list"
  site_capacity :: nat

record mutation_table_t =
  mutation_rows :: "mutation_row_t list"
  mutation_capacity :: nat

definition site_table_clear :: "site_table_t \<Rightarrow> error option \<times> site_table_t" where
  "site_table_clear t = (None, t\<lparr>site_rows := []\<rparr>)"

definition mutation_table_clear :: "mutation_table_t \<Rightarrow> error option \<times> mutation_table_t" where
  "mutation_table_clear t = (None, t\<lparr>mutation_rows := []\<rparr>)"

definition site_table_add_row ::
  "site_table_t \<Rightarrow> real \<Rightarrow> string \<Rightarrow> nat \<Rightarrow> string \<Rightarrow> nat \<Rightarrow> error + (nat \<times> site_table_t)" where
  "site_table_add_row t position ancestral ancestral_length metadata metadata_length =
     (if length (site_rows t) < site_capacity t
      then Inr (length (site_rows t),
             t\<lparr>site_rows := site_rows t @
                 [\<lparr>row_position = position,
                   row_ancestral_state = take ancestral_length ancestral,
                   row_site_metadata = take metadata_length metadata\<rparr>]\<rparr>)
      else Inl MSP_ERR_NO_MEMORY)"

definition mutation_table_add_row ::
  "mutation_table_t \<Rightarrow> nat \<Rightarrow> node_id_t \<Rightarrow> int \<Rightarrow> string \<Rightarrow> nat \<Rightarrow> string \<Rightarrow> nat
     \<Rightarrow> error option \<times> mutation_table_t" where
  "mutation_table_add_row t site node parent derived derived_length metadata metadata_length =
     (if length (mutation_rows t) < mutation_capacity t
      then (None,
             t\<lparr>mutation_rows := mutation_rows t @
                 [\<lparr>row_site = site, row_node = node, row_parent = parent,
                   row_derived_state = take derived_length derived,
                   row_mutation_metadata = take metadata_length metadata\<rparr>]\<rparr>)
      else (Some MSP_ERR_NO_MEMORY, t))"

text \<open>
  The node and edge tables, read only: \<open>nodes->time\<close> is a list of \<open>num_rows\<close> times, the
  edge table a list of rows.
\<close>

record edge_t =
  edge_left :: real
  edge_right :: real
  edge_parent :: node_id_t
  edge_child :: node_id_t

record table_collection_t =
  tc_node_time :: "real list"
  tc_edges :: "edge_t list"
  tc_sites :: site_table_t
  tc_mutations :: mutation_table_t

text \<open>\<open>mutgen_populate_tables\<close>: the inner loop over the mutations of one site.\<close>

fun mutgen_populate_mutations ::
  "mutation_table_t \<Rightarrow> nat \<Rightarrow> site_mutation_t list \<Rightarrow> error option \<times> mutation_table_t" where
  "mutgen_populate_mutations mutations site_id [] = (None, mutations)"
| "mutgen_populate_mutations mutations site_id (m # ms) =
     (case mutation_table_add_row mutations site_id (mutation_node m) (mutation_parent m)
             (mutation_derived_state m) (mutation_derived_state_length m)
             (mutation_metadata m) (mutation_metadata_length m) of
        (Some e, mutations') \<Rightarrow> (Some e, mutations')
      | (None, mutations') \<Rightarrow> mutgen_populate_mutations mutations' site_id ms)"

text \<open>The outer loop, over the items of the site index in order.\<close>

fun mutgen_populate_sites ::
  "site_t list \<Rightarrow> site_table_t \<Rightarrow> mutation_table_t
     \<Rightarrow> error option \<times> site_table_t \<times> mutation_table_t" where
  "mutgen_populate_sites [] sites mutations = (None, sites, mutations)"
| "mutgen_populate_sites (site # rest) sites mutations =
     (case site_table_add_row sites (site_position site) (site_ancestral_state site)
             (site_ancestral_state_length site) (site_metadata site) (site_metadata_length site) of
        Inl e \<Rightarrow> (Some e, sites, mutations)
      | Inr (site_id, sites') \<Rightarrow>
          (case mutgen_populate_mutations mutations site_id (site_mutations site) of
             (Some e, mutations') \<Rightarrow> (Some e, sites', mutations')
           | (None, mutations') \<Rightarrow> mutgen_populate_sites rest sites' mutations'))"

definition mutgen_populate_tables ::
  "'r mutgen_t \<Rightarrow> site_table_t \<Rightarrow> mutation_table_t
     \<Rightarrow> error option \<times> site_table_t \<times> mutation_table_t" where
  "mutgen_populate_tables self sites mutations =
     mutgen_populate_sites (mutgen_sites self) sites mutations"

text \<open>
  The rejection loop of \<open>mutgen_generate\<close>: draw a position until the site index has no
  site there. The source puts no bound on the number of draws, so the loop may run
  forever; not returning is \<open>None\<close>.
\<close>

partial_function (option) mutgen_draw_position ::
  "'r gsl_rng \<Rightarrow> site_t list \<Rightarrow> real \<Rightarrow> real \<Rightarrow> 'r \<Rightarrow> (real \<times> 'r) option" where
  "mutgen_draw_position gsl sites left right rng =
     (case gsl_ran_flat gsl rng left right of
        (position, rng') \<Rightarrow>
          if avl_search sites position \<noteq> None
          then mutgen_draw_position gsl sites left right rng'
          else Some (position, rng'))"

declare mutgen_draw_position.simps [code]

text \<open>
  The loop \<open>for (l = 0; l < branch_mutations; l++)\<close>, by the number of mutations still
  to place on the edge.
\<close>

fun mutgen_place_mutations ::
  "'r gsl_rng \<Rightarrow> mutation_type_t list \<Rightarrow> nat \<Rightarrow> node_id_t \<Rightarrow> real \<Rightarrow> real \<Rightarrow> nat
     \<Rightarrow> 'r mutgen_t \<Rightarrow> (error option \<times> 'r mutgen_t) option" where
  "mutgen_place_mutations gsl mutation_types num_mutation_types child left right 0 self =
     Some (None, self)"
| "mutgen_place_mutations gsl mutation_types num_mutation_types child left right (Suc n) self =
     (case mutgen_draw_position gsl (mutgen_sites self) left right (mutgen_rng self) of
        None \<Rightarrow> None
      | Some (position, rng1) \<Rightarrow>
          if \<not> (left \<le> position \<and> position < right)
          then Some (Some ASSERTION_FAILED, self\<lparr>mutgen_rng := rng1\<rparr>)
          else
            (case gsl_rng_uniform_int gsl rng1 num_mutation_types of
               (type, rng2) \<Rightarrow>
                 if \<not> type < length mutation_types
                 then Some (Some MEMORY_FAULT, self\<lparr>mutgen_rng := rng2\<rparr>)
                 else
                   (case mutgen_add_mutation (self\<lparr>mutgen_rng := rng2\<rparr>) child position
                           (ancestral_state (mutation_types ! type))
                           (derived_state (mutation_types ! type)) of
                      (Some e, self') \<Rightarrow> Some (Some e, self')
                    | (None, self') \<Rightarrow>
                        mutgen_place_mutations gsl mutation_types num_mutation_types
                          child left right n self')))"

text \<open>Reading \<open>nodes->time[u]\<close>.\<close>

definition node_time :: "real list \<Rightarrow> node_id_t \<Rightarrow> error + real" where
  "node_time time u =
     (if 0 \<le> sint u \<and> nat (sint u) < length time then Inr (time ! nat (sint u))
      else Inl MEMORY_FAULT)"

text \<open>The loop over the edges.\<close>

fun mutgen_place_edges ::
  "'r gsl_rng \<Rightarrow> mutation_type_t list \<Rightarrow> nat \<Rightarrow> real list \<Rightarrow> edge_t list
     \<Rightarrow> 'r mutgen_t \<Rightarrow> (error option \<times> 'r mutgen_t) option" where
  "mutgen_place_edges gsl mutation_types num_mutation_types time [] self = Some (None, self)"
| "mutgen_place_edges gsl mutation_types num_mutation_types time (e # es) self =
     (let left = edge_left e; right = edge_right e; distance = right - left;
          parent = edge_parent e; child = edge_child e
      in if \<not> (0 \<le> sint child \<and> sint child < sint (node_of_size_t (length time)))
         then Some (Some ASSERTION_FAILED, self)
         else
           (case node_time time parent of
              Inl err \<Rightarrow> Some (Some err, self)
            | Inr parent_time \<Rightarrow>
                (case node_time time child of
                   Inl err \<Rightarrow> Some (Some err, self)
                 | Inr child_time \<Rightarrow>
                     (let branch_length = parent_time - child_time;
                          mu = branch_length * distance * mutgen_mutation_rate self
                      in case gsl_ran_poisson gsl (mutgen_rng self) mu of
                           (branch_mutations, rng1) \<Rightarrow>
                             (case mutgen_place_mutations gsl mutation_types num_mutation_types
                                     child left right branch_mutations
                                     (self\<lparr>mutgen_rng := rng1\<rparr>) of
                                None \<Rightarrow> None
                              | Some (Some err, self') \<Rightarrow> Some (Some err, self')
                              | Some (None, self') \<Rightarrow>
                                  mutgen_place_edges gsl mutation_types num_mutation_types
                                    time es self')))))"

text \<open>
  \<open>mutgen_generate\<close>: \<open>None\<close> when the rejection loop does not return, otherwise the
  return code with the generator and the tables as the call leaves them.
\<close>

definition mutgen_generate ::
  "'r gsl_rng \<Rightarrow> 'r mutgen_t \<Rightarrow> table_collection_t \<Rightarrow> int
     \<Rightarrow> (error option \<times> 'r mutgen_t \<times> table_collection_t) option" where
  "mutgen_generate gsl self tables flags =
     (if flags \<noteq> 0 then Some (Some ASSERTION_FAILED, self, tables)
      else
        (let self1 = self\<lparr>mutgen_sites := [],
                          mutgen_allocator := block_allocator_reset (mutgen_allocator self)\<rparr>
         in case site_table_clear (tc_sites tables) of
              (Some err, sites1) \<Rightarrow> Some (Some err, self1, tables\<lparr>tc_sites := sites1\<rparr>)
            | (None, sites1) \<Rightarrow>
                (case mutation_table_clear (tc_mutations tables) of
                   (Some err, mutations1) \<Rightarrow>
                     Some (Some err, self1,
                       tables\<lparr>tc_sites := sites1, tc_mutations := mutations1\<rparr>)
                 | (None, mutations1) \<Rightarrow>
                     (let tables1 = tables\<lparr>tc_sites := sites1, tc_mutations := mutations1\<rparr>;
                          mutation_types =
                            (if mutgen_alphabet self1 = 0 then binary_mutation_types
                             else acgt_mutation_types);
                          num_mutation_types = (if mutgen_alphabet self1 = 0 then 1 else 12)
                      in case mutgen_place_edges gsl mutation_types num_mutation_types
                                (tc_node_time tables1) (tc_edges tables1) self1 of
                           None \<Rightarrow> None
                         | Some (Some err, self2) \<Rightarrow> Some (Some err, self2, tables1)
                         | Some (None, self2) \<Rightarrow>
                             (case mutgen_populate_tables self2 (tc_sites tables1)
                                     (tc_mutations tables1) of
                                (ret, sites2, mutations2) \<Rightarrow>
                                  Some (ret, self2,
                                    tables1\<lparr>tc_sites := sites2, tc_mutations := mutations2\<rparr>))))))"

section \<open>Notions used in the statements\<close>

subsection \<open>The haplotype matrix\<close>

text \<open>
  \<open>hapgen_bit\<close> is the bit of the matrix at a row and a column, \<open>hapgen_bits\<close> the set
  of positions inside the matrix whose bit is set. \<open>hapgen_shape\<close> collects what
  \<open>hapgen_set_bit\<close> never changes, and \<open>hapgen_matrix_ok\<close> says that the matrix has
  one row of \<open>words_per_row\<close> words per sample. \<open>hapgen_init\<close> is the generator as
  \<open>hapgen_alloc\<close> has it just before \<open>hapgen_generate_all_haplotypes\<close>, and
  \<open>hapgen_row_chars\<close> the characters \<open>hapgen_get_haplotype\<close> writes for the words
  \<open>j\<close>, \<open>j + 1\<close>, ... of a row.
\<close>

definition hapgen_bit :: "hapgen_t \<Rightarrow> nat \<Rightarrow> nat \<Rightarrow> bool" where
  "hapgen_bit self row column =
     bit (haplotype_matrix self ! (row * words_per_row self + column div HG_WORD_SIZE))
       (column mod HG_WORD_SIZE)"

definition hapgen_bits :: "hapgen_t \<Rightarrow> (nat \<times> nat) set" where
  "hapgen_bits self =
     {(r, c). r < sample_size self \<and> c < words_per_row self * HG_WORD_SIZE \<and> hapgen_bit self r c}"

definition hapgen_shape :: "hapgen_t \<Rightarrow> nat \<times> nat \<times> nat \<times> nat \<times> nat" where
  "hapgen_shape self =
     (sample_size self, num_mutations self, words_per_row self,
      length (haplotype_matrix self), haplotype_size self)"

definition hapgen_matrix_ok :: "hapgen_t \<Rightarrow> bool" where
  "hapgen_matrix_ok self =
     (length (haplotype_matrix self) = words_per_row self * sample_size self)"

definition hapgen_init :: "tree_sequence_t \<Rightarrow> hapgen_t" where
  "hapgen_init ts =
     \<lparr>sample_size = ts_sample_size ts,
      num_mutations = ts_num_mutations ts,
      words_per_row = ts_num_mutations ts div HG_WORD_SIZE + 1,
      haplotype_matrix =
        replicate ((ts_num_mutations ts div HG_WORD_SIZE + 1) * ts_sample_size ts) 0,
      haplotype_size = (ts_num_mutations ts div HG_WORD_SIZE + 1) * HG_WORD_SIZE + 1\<rparr>"

definition hapgen_row_chars :: "hapgen_t \<Rightarrow> nat \<Rightarrow> nat \<Rightarrow> string" where
  "hapgen_row_chars self row j =
     concat (map (\<lambda>i. hapgen_word_chars (haplotype_matrix self ! (row * words_per_row self + i)))
       [j..<words_per_row self])"

text \<open>
  The samples below a mutation: \<open>leaves_of\<close> is the leaf list of a node in a tree (empty
  when the query fails), \<open>mutation_samples\<close> the samples in the leaf lists of the nodes of
  a mutation, and \<open>carries ts sample column\<close> says that some tree of \<open>ts\<close> has a mutation
  with index \<open>column\<close> above \<open>sample\<close>. \<open>column_pairs\<close> and \<open>tree_pairs\<close> are the
  matrix positions these samples stand for.
\<close>

definition leaves_of :: "sparse_tree_t \<Rightarrow> node_id_t \<Rightarrow> node_id_t list" where
  "leaves_of t u = (case leaf_list t u of Inl e \<Rightarrow> [] | Inr ws \<Rightarrow> ws)"

definition mutation_samples :: "sparse_tree_t \<Rightarrow> mutation_t \<Rightarrow> node_id_t set" where
  "mutation_samples t m = (\<Union>u\<in>set (mut_nodes m). set (leaves_of t u))"

definition carries :: "tree_sequence_t \<Rightarrow> node_id_t \<Rightarrow> nat \<Rightarrow> bool" where
  "carries ts sample column =
     (\<exists>t\<in>set (ts_trees ts). \<exists>m\<in>set (tree_mutations t).
        mut_index m = column \<and> sample \<in> mutation_samples t m)"

definition column_pairs :: "nat \<Rightarrow> node_id_t set \<Rightarrow> (nat \<times> nat) set" where
  "column_pairs c W = (\<lambda>w. (size_t_of_node w, c)) ` W"

definition tree_pairs :: "sparse_tree_t \<Rightarrow> mutation_t list \<Rightarrow> (nat \<times> nat) set" where
  "tree_pairs t ms = (\<Union>m\<in>set ms. column_pairs (mut_index m) (mutation_samples t m))"

text \<open>
  The build as a sequence of \<open>hapgen_set_bit\<close> calls: \<open>hapgen_attempts\<close> lists the
  (row, column) pairs in the order the loops of \<open>hapgen_generate_all_haplotypes\<close> and
  \<open>hapgen_apply_tree_mutation\<close> reach them, and \<open>hapgen_set_bits\<close> runs such a list,
  stopping at the first failure. A tree sequence is well formed (\<open>hapgen_wf\<close>) when every
  mutation index is below the mutation count and every leaf-list query on a mutation's
  node succeeds with sample ids only.
\<close>

fun hapgen_set_bits :: "hapgen_t \<Rightarrow> (nat \<times> nat) list \<Rightarrow> error + hapgen_t" where
  "hapgen_set_bits self [] = Inr self"
| "hapgen_set_bits self ((row, column) # xs) =
     (case hapgen_set_bit self row column of
        Inl e \<Rightarrow> Inl e
      | Inr self' \<Rightarrow> hapgen_set_bits self' xs)"

definition hapgen_attempts_mutation :: "sparse_tree_t \<Rightarrow> mutation_t \<Rightarrow> (nat \<times> nat) list" where
  "hapgen_attempts_mutation t m =
     concat (map (\<lambda>u. map (\<lambda>w. (size_t_of_node w, mut_index m)) (leaves_of t u)) (mut_nodes m))"

definition hapgen_attempts_tree :: "sparse_tree_t \<Rightarrow> (nat \<times> nat) list" where
  "hapgen_attempts_tree t = concat (map (hapgen_attempts_mutation t) (tree_mutations t))"

definition hapgen_attempts :: "tree_sequence_t \<Rightarrow> (nat \<times> nat) list" where
  "hapgen_attempts ts = concat (map hapgen_attempts_tree (ts_trees ts))"

definition leaf_list_ok :: "tree_sequence_t \<Rightarrow> sparse_tree_t \<Rightarrow> node_id_t \<Rightarrow> bool" where
  "leaf_list_ok ts t u =
     (case leaf_list t u of
        Inl e \<Rightarrow> False
      | Inr ws \<Rightarrow> \<forall>w \<in> set ws. 0 \<le> sint w \<and> sint w < int (ts_sample_size ts))"

definition hapgen_wf :: "tree_sequence_t \<Rightarrow> bool" where
  "hapgen_wf ts =
     (\<forall>t \<in> set (ts_trees ts). \<forall>m \<in> set (tree_mutations t).
        mut_index m < ts_num_mutations ts \<and> (\<forall>u \<in> set (mut_nodes m). leaf_list_ok ts t u))"

text \<open>
  The spec's data model gives the number of words of a row as the ceiling of
  \<open>num_mutations / WORD_BITS\<close>; this is that formula, to be compared with what
  \<open>hapgen_alloc\<close> computes.
\<close>

definition hapgen_words_per_row_spec :: "nat \<Rightarrow> nat" where
  "hapgen_words_per_row_spec n = nat \<lceil>real n / real HG_WORD_SIZE\<rceil>"

subsection \<open>The site index and the tables\<close>

text \<open>
  \<open>mutgen_sorted\<close>: the positions of the site index increase strictly.
  \<open>mutgen_site_typed\<close>: a site is one that \<open>mutgen_add_mutation\<close> builds from a state
  pair of the given table. \<open>site_row_of\<close> and \<open>mutation_row_of\<close> are the rows that
  \<open>mutgen_populate_tables\<close> appends for a site and for one of its mutations, and
  \<open>mutgen_mutation_rows\<close> the mutation rows of a list of sites whose first site gets
  the given id.
\<close>

definition mutgen_sorted :: "site_t list \<Rightarrow> bool" where
  "mutgen_sorted ss = sorted_wrt (<) (map site_position ss)"

definition mutgen_site_typed :: "mutation_type_t list \<Rightarrow> site_t \<Rightarrow> bool" where
  "mutgen_site_typed types s =
     (\<exists>ty \<in> set types. \<exists>node position.
        s = mutgen_new_site node position (ancestral_state ty) (derived_state ty))"

definition site_row_of :: "site_t \<Rightarrow> site_row_t" where
  "site_row_of s =
     \<lparr>row_position = site_position s,
      row_ancestral_state = take (site_ancestral_state_length s) (site_ancestral_state s),
      row_site_metadata = take (site_metadata_length s) (site_metadata s)\<rparr>"

definition mutation_row_of :: "nat \<Rightarrow> site_mutation_t \<Rightarrow> mutation_row_t" where
  "mutation_row_of site_id m =
     \<lparr>row_site = site_id, row_node = mutation_node m, row_parent = mutation_parent m,
      row_derived_state = take (mutation_derived_state_length m) (mutation_derived_state m),
      row_mutation_metadata = take (mutation_metadata_length m) (mutation_metadata m)\<rparr>"

fun mutgen_mutation_rows :: "nat \<Rightarrow> site_t list \<Rightarrow> mutation_row_t list" where
  "mutgen_mutation_rows site_id [] = []"
| "mutgen_mutation_rows site_id (s # ss) =
     map (mutation_row_of site_id) (site_mutations s) @ mutgen_mutation_rows (Suc site_id) ss"

text \<open>
  The first steps of \<open>mutgen_generate\<close>, named: \<open>mutgen_reset\<close> is the generator after
  \<open>avl_clear_tree\<close> and \<open>block_allocator_reset\<close>, \<open>tables_cleared\<close> the tables after
  the two \<open>clear\<close> calls, \<open>mutgen_mutation_types\<close> and \<open>mutgen_num_mutation_types\<close>
  the table the alphabet selects, and \<open>mutgen_generate_body\<close> the rest of the function
  from there on.
\<close>

definition mutgen_reset :: "'r mutgen_t \<Rightarrow> 'r mutgen_t" where
  "mutgen_reset self =
     self\<lparr>mutgen_sites := [],
          mutgen_allocator := block_allocator_reset (mutgen_allocator self)\<rparr>"

definition tables_cleared :: "table_collection_t \<Rightarrow> table_collection_t" where
  "tables_cleared tables =
     tables\<lparr>tc_sites := (tc_sites tables)\<lparr>site_rows := []\<rparr>,
            tc_mutations := (tc_mutations tables)\<lparr>mutation_rows := []\<rparr>\<rparr>"

definition mutgen_mutation_types :: "'r mutgen_t \<Rightarrow> mutation_type_t list" where
  "mutgen_mutation_types self =
     (if mutgen_alphabet self = 0 then binary_mutation_types else acgt_mutation_types)"

definition mutgen_num_mutation_types :: "'r mutgen_t \<Rightarrow> nat" where
  "mutgen_num_mutation_types self = (if mutgen_alphabet self = 0 then 1 else 12)"

definition mutgen_generate_body ::
  "'r gsl_rng \<Rightarrow> 'r mutgen_t \<Rightarrow> table_collection_t
     \<Rightarrow> (error option \<times> 'r mutgen_t \<times> table_collection_t) option" where
  "mutgen_generate_body gsl self1 tables1 =
     (case mutgen_place_edges gsl (mutgen_mutation_types self1) (mutgen_num_mutation_types self1)
             (tc_node_time tables1) (tc_edges tables1) self1 of
        None \<Rightarrow> None
      | Some (Some err, self2) \<Rightarrow> Some (Some err, self2, tables1)
      | Some (None, self2) \<Rightarrow>
          (case mutgen_populate_sites (mutgen_sites self2) (tc_sites tables1) (tc_mutations tables1) of
             (ret, sites2, mutations2) \<Rightarrow>
               Some (ret, self2, tables1\<lparr>tc_sites := sites2, tc_mutations := mutations2\<rparr>)))"

section \<open>Concrete inputs\<close>

text \<open>
  A tree sequence of three samples and two mutations in one tree: mutation 0 sits on
  node 3, whose leaves are the samples 0 and 1, mutation 1 on sample 1. \<open>ex_hapgen\<close> is
  the generator built from it.
\<close>

definition ex_tree :: sparse_tree_t where
  "ex_tree =
     \<lparr>tree_mutations = [\<lparr>mut_index = 0, mut_nodes = [3]\<rparr>, \<lparr>mut_index = 1, mut_nodes = [1]\<rparr>],
      leaf_list = (\<lambda>u. if u = 3 then Inr [0, 1] else Inr [u])\<rparr>"

definition ex_ts :: tree_sequence_t where
  "ex_ts =
     \<lparr>ts_sample_size = 3, ts_num_mutations = 2, ts_mutation_types_num_records = 1,
      ts_sparse_tree_alloc = None, ts_trees = [ex_tree], ts_iter_end = None\<rparr>"

definition ex_hapgen :: hapgen_t where
  "ex_hapgen =
     \<lparr>sample_size = 3, num_mutations = 2, words_per_row = 1,
      haplotype_matrix = [1, 3, 0], haplotype_size = 65\<rparr>"

text \<open>
  A tree sequence of two samples without mutations whose mutation-type table has twelve
  records, and the generator built from it.
\<close>

definition ex_ts_empty :: tree_sequence_t where
  "ex_ts_empty =
     \<lparr>ts_sample_size = 2, ts_num_mutations = 0, ts_mutation_types_num_records = 12,
      ts_sparse_tree_alloc = None,
      ts_trees = [\<lparr>tree_mutations = [], leaf_list = (\<lambda>u. Inr [u])\<rparr>],
      ts_iter_end = None\<rparr>"

definition ex_hapgen_empty :: hapgen_t where
  "ex_hapgen_empty =
     \<lparr>sample_size = 2, num_mutations = 0, words_per_row = 1,
      haplotype_matrix = [0, 0], haplotype_size = 65\<rparr>"

text \<open>
  A malformed tree sequence: its one mutation lists node 2, above both samples, and
  sample 0 again, so sample 0 receives column 0 twice.
\<close>

definition ex_ts_dup :: tree_sequence_t where
  "ex_ts_dup =
     \<lparr>ts_sample_size = 2, ts_num_mutations = 1, ts_mutation_types_num_records = 1,
      ts_sparse_tree_alloc = None,
      ts_trees = [\<lparr>tree_mutations = [\<lparr>mut_index = 0, mut_nodes = [2, 0]\<rparr>],
                   leaf_list = (\<lambda>u. if u = 2 then Inr [0, 1] else Inr [u])\<rparr>],
      ts_iter_end = None\<rparr>"

text \<open>
  A random source with a counter as its state: two mutations on every branch of
  positive mean, positions \<open>left + (right - left) / (2 + s div 4)\<close> (so that some draws
  repeat a position already taken), and the state pair \<open>s mod n\<close>. The generator
  \<open>ex_mutgen\<close> and the tables \<open>ex_tables\<close> still hold a site and rows of an earlier run;
  the table of sites can grow to \<open>capacity\<close> rows.
\<close>

definition ex_gsl :: "nat gsl_rng" where
  "ex_gsl =
     \<lparr>gsl_ran_poisson = (\<lambda>s mu. (if 0 < mu then 2 else 0, s + 1)),
      gsl_ran_flat = (\<lambda>s l r. (l + (r - l) / real (2 + s div 4), s + 1)),
      gsl_rng_uniform_int = (\<lambda>s n. (s mod n, s + 1))\<rparr>"

definition ex_mutgen :: "int \<Rightarrow> nat mutgen_t" where
  "ex_mutgen alphabet =
     \<lparr>mutgen_alphabet = alphabet, mutgen_mutation_rate = 1, mutgen_rng = 0,
      mutgen_sites = [mutgen_new_site 7 (1 / 2) ''0'' ''1''],
      mutgen_allocator = \<lparr>chunk_size = 8192, arena_capacity = 100, arena_used = 3\<rparr>\<rparr>"

definition ex_tables :: "nat \<Rightarrow> table_collection_t" where
  "ex_tables capacity =
     \<lparr>tc_node_time = [0, 0, 1],
      tc_edges = [\<lparr>edge_left = 0, edge_right = 1, edge_parent = 2, edge_child = 0\<rparr>,
                  \<lparr>edge_left = 0, edge_right = 1, edge_parent = 2, edge_child = 1\<rparr>],
      tc_sites = \<lparr>site_rows = [\<lparr>row_position = 1 / 2, row_ancestral_state = ''0'',
                                 row_site_metadata = []\<rparr>],
                  site_capacity = capacity\<rparr>,
      tc_mutations = \<lparr>mutation_rows = [\<lparr>row_site = 0, row_node = 7, row_parent = - 1,
                                         row_derived_state = ''1'', row_mutation_metadata = []\<rparr>],
                      mutation_capacity = 100\<rparr>\<rparr>"

section \<open>Properties of the haplotype generator\<close>

subsection \<open>Words, casts and indices\<close>

lemma and_push_bit_one_neq_0: "b < 64 \<Longrightarrow> ((w::64 word) AND push_bit b 1 \<noteq> 0) = bit w b"
  by (simp add: bit_iff_and_push_bit_not_eq_0)

lemma drop_bit_and_one_neq_0: "((drop_bit k (w::64 word)) AND 1 \<noteq> 0) = bit w k"
  by (simp add: bit_iff_and_drop_bit_eq_1 and_one_eq)

lemma bit_or_push_bit_one: "b < 64 \<Longrightarrow> bit ((w::64 word) OR push_bit b 1) k = (bit w k \<or> k = b)"
  by (auto simp add: bit_simps)

lemma sint_node_bounds: "- (2 ^ 31) \<le> sint (n::node_id_t) \<and> sint n < 2 ^ 31"
  using sint_ge [of n] sint_lt [of n] by simp

lemma size_t_of_node_nonneg: "0 \<le> sint n \<Longrightarrow> size_t_of_node n = nat (sint n)"
  using sint_node_bounds [of n] by (simp add: size_t_of_node_def)

lemma size_t_of_node_neg: "sint n < 0 \<Longrightarrow> size_t_of_node n = nat (2 ^ 64 + sint n)"
proof -
  assume neg: "sint n < 0"
  have "sint n mod 2 ^ 64 = (sint n + 2 ^ 64) mod 2 ^ 64" by simp
  also have "\<dots> = sint n + 2 ^ 64"
    using sint_node_bounds [of n] neg by (intro mod_pos_pos_trivial) simp_all
  finally show ?thesis by (simp add: size_t_of_node_def add.commute)
qed

lemma size_t_of_node_inj: "size_t_of_node a = size_t_of_node b \<Longrightarrow> a = b"
proof -
  assume eq: "size_t_of_node a = size_t_of_node b"
  have "sint a = sint b"
    using eq sint_node_bounds [of a] sint_node_bounds [of b]
    by (cases "0 \<le> sint a"; cases "0 \<le> sint b")
       (simp_all add: size_t_of_node_nonneg size_t_of_node_neg)
  then show ?thesis by (rule signed_word_eqI)
qed

lemma size_t_of_node_small [simp]:
  "size_t_of_node 0 = 0" "size_t_of_node 1 = 1" "size_t_of_node 2 = 2"
  by (simp_all add: size_t_of_node_def)

lemma sint_node_of_size_t: "n < 2 ^ 31 \<Longrightarrow> sint (node_of_size_t n) = int n"
  by (simp add: node_of_size_t_def sint_uint signed_take_bit_int_eq_self take_bit_nat_eq_self unsigned_of_nat)

lemma matrix_index_less:
  "r * w + k < w * s \<Longrightarrow> (r::nat) < s"
proof (rule ccontr)
  assume lt: "r * w + k < w * s" and "\<not> r < s"
  then have "s \<le> r" by simp
  then have "w * s \<le> r * w" by (simp add: mult.commute)
  with lt show False by simp
qed

lemma matrix_index_in_range:
  "(r::nat) < s \<Longrightarrow> k < w \<Longrightarrow> r * w + k < w * s"
proof -
  assume "r < s" "k < w"
  then have "r * w + k < r * w + w" by simp
  also have "\<dots> = (Suc r) * w" by simp
  also have "\<dots> \<le> s * w" using \<open>r < s\<close> by (intro mult_le_mono1) simp
  finally show ?thesis by (simp add: mult.commute)
qed

lemma matrix_index_inj:
  "(k::nat) < w \<Longrightarrow> k' < w \<Longrightarrow> r * w + k = r' * w + k' \<Longrightarrow> r = r' \<and> k = k'"
proof -
  assume k: "k < w" and k': "k' < w" and eq: "r * w + k = r' * w + k'"
  have "(r * w + k) div w = r" using k by simp
  moreover have "(r' * w + k') div w = r'" using k' by simp
  ultimately have "r = r'" using eq by simp
  with eq show ?thesis by simp
qed

lemma ceiling_div_64: "nat \<lceil>real n / 64\<rceil> = n div 64 + (if 64 dvd n then 0 else 1)"
proof -
  have "\<lceil>real n / 64\<rceil> = \<lceil>real_of_int (int n) / real_of_int 64\<rceil>" by simp
  also have "\<dots> = - (- int n div 64)" by (rule ceiling_divide_eq_div)
  also have "\<dots> = int (n div 64 + (if 64 dvd n then 0 else 1))"
  proof (cases "64 dvd n")
    case True
    then obtain k where "n = 64 * k" by (auto simp: dvd_def)
    then show ?thesis by simp
  next
    case False
    then have "\<not> 64 dvd int n" by presburger
    then have "- int n div 64 = - (int n div 64) - 1"
      by (simp add: zdiv_zminus1_eq_if dvd_eq_mod_eq_0)
    with False show ?thesis by (simp add: zdiv_int)
  qed
  finally show ?thesis by simp
qed

subsection \<open>What the build stores\<close>

lemma hapgen_set_bit_shape:
  "hapgen_set_bit self r c = Inr self' \<Longrightarrow> hapgen_shape self' = hapgen_shape self"
  by (auto simp: hapgen_set_bit_def hapgen_shape_def Let_def split: if_splits)

lemma hapgen_set_bit_ok:
  "hapgen_set_bit self r c = Inr self' \<Longrightarrow> hapgen_matrix_ok self \<Longrightarrow> hapgen_matrix_ok self'"
  by (auto simp: hapgen_set_bit_def hapgen_matrix_ok_def Let_def split: if_splits)

lemma hapgen_set_bit_bits:
  assumes set: "hapgen_set_bit self r c = Inr self'" and ok: "hapgen_matrix_ok self"
  shows "hapgen_bits self' = insert (r, c) (hapgen_bits self)"
    and "(r, c) \<notin> hapgen_bits self"
proof -
  let ?w = "words_per_row self"
  let ?m = "haplotype_matrix self"
  let ?i = "r * ?w + c div 64"
  from set have word: "c div 64 < ?w" and idx: "?i < length ?m"
    and clear: "\<not> (?m ! ?i AND push_bit (c mod 64) 1 \<noteq> 0)"
    and self': "self' = self\<lparr>haplotype_matrix := ?m[?i := ?m ! ?i OR push_bit (c mod 64) 1]\<rparr>"
    by (auto simp: hapgen_set_bit_def HG_WORD_SIZE_def Let_def split: if_splits)
  from idx ok have r: "r < sample_size self"
    by (auto simp: hapgen_matrix_ok_def dest: matrix_index_less)
  from word have c: "c < ?w * 64" by (simp add: less_mult_imp_div_less div_less_iff_less_mult mult.commute)
  from clear have nb: "\<not> hapgen_bit self r c"
    using and_push_bit_one_neq_0 [of "c mod 64" "?m ! ?i"]
    by (simp add: hapgen_bit_def HG_WORD_SIZE_def)
  then show "(r, c) \<notin> hapgen_bits self" by (simp add: hapgen_bits_def)
  have upd: "hapgen_bit self' r' c' = (hapgen_bit self r' c' \<or> (r' = r \<and> c' = c))"
    if r': "r' < sample_size self" and c': "c' < ?w * 64" for r' c'
  proof -
    from c' have word': "c' div 64 < ?w" by (simp add: div_less_iff_less_mult mult.commute)
    let ?i' = "r' * ?w + c' div 64"
    have idx': "?i' < length ?m"
      using ok r' word' by (simp add: hapgen_matrix_ok_def matrix_index_in_range)
    show ?thesis
    proof (cases "?i' = ?i")
      case True
      with word word' have rr: "r' = r" and ww: "c' div 64 = c div 64"
        using matrix_index_inj [of "c' div 64" ?w "c div 64" r' r] by auto
      have "c' = c \<longleftrightarrow> c' mod 64 = c mod 64"
        using ww by (metis div_mult_mod_eq)
      with True idx rr show ?thesis
        using bit_or_push_bit_one [of "c mod 64" "?m ! ?i" "c' mod 64"]
        by (simp add: self' hapgen_bit_def HG_WORD_SIZE_def)
    next
      case False
      then have ne: "\<not> (r' = r \<and> c' = c)" by auto
      from False idx' have "hapgen_bit self' r' c' = hapgen_bit self r' c'"
        by (simp add: self' hapgen_bit_def HG_WORD_SIZE_def)
      with ne show ?thesis by blast
    qed
  qed
  have same: "sample_size self' = sample_size self" "words_per_row self' = ?w"
    by (simp_all add: self')
  show "hapgen_bits self' = insert (r, c) (hapgen_bits self)"
    using r c upd by (auto simp: hapgen_bits_def same HG_WORD_SIZE_def)
qed

lemma hapgen_set_bit_in_range:
  assumes ok: "hapgen_matrix_ok self" and r: "r < sample_size self"
    and c: "c < words_per_row self * HG_WORD_SIZE"
  shows "hapgen_bit self r c \<Longrightarrow> hapgen_set_bit self r c = Inl MSP_ERR_INCONSISTENT_MUTATIONS"
    and "\<not> hapgen_bit self r c \<Longrightarrow> \<exists>self'. hapgen_set_bit self r c = Inr self'"
proof -
  from c have word: "c div 64 < words_per_row self"
    by (simp add: HG_WORD_SIZE_def div_less_iff_less_mult mult.commute)
  with r ok have idx: "r * words_per_row self + c div 64 < length (haplotype_matrix self)"
    by (simp add: hapgen_matrix_ok_def matrix_index_in_range)
  note b = and_push_bit_one_neq_0 [of "c mod 64"
      "haplotype_matrix self ! (r * words_per_row self + c div 64)"]
  show "hapgen_bit self r c \<Longrightarrow> hapgen_set_bit self r c = Inl MSP_ERR_INCONSISTENT_MUTATIONS"
    using word idx b by (simp add: hapgen_set_bit_def hapgen_bit_def HG_WORD_SIZE_def Let_def)
  show "\<not> hapgen_bit self r c \<Longrightarrow> \<exists>self'. hapgen_set_bit self r c = Inr self'"
    using word idx b by (simp add: hapgen_set_bit_def hapgen_bit_def HG_WORD_SIZE_def Let_def)
qed

lemma hapgen_set_leaves_effect:
  "hapgen_set_leaves self ws c = Inr self' \<Longrightarrow> hapgen_matrix_ok self \<Longrightarrow>
     hapgen_matrix_ok self' \<and> hapgen_shape self' = hapgen_shape self \<and>
     hapgen_bits self' = hapgen_bits self \<union> column_pairs c (set ws)"
proof (induction ws arbitrary: self)
  case Nil
  then show ?case by (simp add: column_pairs_def)
next
  case (Cons w ws)
  from Cons.prems(1) obtain mid where
    bit: "hapgen_set_bit self (size_t_of_node w) c = Inr mid" and
    rest: "hapgen_set_leaves mid ws c = Inr self'"
    by (auto split: sum.splits)
  from bit Cons.prems(2) have ok: "hapgen_matrix_ok mid" by (rule hapgen_set_bit_ok)
  from Cons.IH [OF rest ok] hapgen_set_bit_shape [OF bit]
    hapgen_set_bit_bits(1) [OF bit Cons.prems(2)]
  show ?case by (auto simp: column_pairs_def)
qed

lemma hapgen_apply_nodes_effect:
  "hapgen_apply_nodes self t us c = Inr self' \<Longrightarrow> hapgen_matrix_ok self \<Longrightarrow>
     hapgen_matrix_ok self' \<and> hapgen_shape self' = hapgen_shape self \<and>
     hapgen_bits self' =
       hapgen_bits self \<union> column_pairs c (\<Union>u\<in>set us. set (leaves_of t u))"
proof (induction us arbitrary: self)
  case Nil
  then show ?case by (simp add: column_pairs_def)
next
  case (Cons u us)
  from Cons.prems(1) obtain ws mid where
    ll: "leaf_list t u = Inr ws" and
    leaves: "hapgen_set_leaves self ws c = Inr mid" and
    rest: "hapgen_apply_nodes mid t us c = Inr self'"
    by (auto split: sum.splits)
  note a = hapgen_set_leaves_effect [OF leaves Cons.prems(2)]
  from a have ok: "hapgen_matrix_ok mid" by simp
  from ll have lo: "leaves_of t u = ws" by (simp add: leaves_of_def)
  from Cons.IH [OF rest ok] a lo
  show ?case by (auto simp: column_pairs_def)
qed

lemma hapgen_apply_mutations_effect:
  "hapgen_apply_mutations self t ms = Inr self' \<Longrightarrow> hapgen_matrix_ok self \<Longrightarrow>
     hapgen_matrix_ok self' \<and> hapgen_shape self' = hapgen_shape self \<and>
     hapgen_bits self' = hapgen_bits self \<union> tree_pairs t ms"
proof (induction ms arbitrary: self)
  case Nil
  then show ?case by (simp add: tree_pairs_def)
next
  case (Cons m ms)
  from Cons.prems(1) obtain mid where
    one: "hapgen_apply_nodes self t (mut_nodes m) (mut_index m) = Inr mid" and
    rest: "hapgen_apply_mutations mid t ms = Inr self'"
    by (auto simp: hapgen_apply_tree_mutation_def split: sum.splits)
  note a = hapgen_apply_nodes_effect [OF one Cons.prems(2)]
  from a have ok: "hapgen_matrix_ok mid" by simp
  from Cons.IH [OF rest ok] a
  show ?case by (auto simp: tree_pairs_def mutation_samples_def)
qed

lemma hapgen_apply_trees_effect:
  "hapgen_apply_trees self ts = Inr self' \<Longrightarrow> hapgen_matrix_ok self \<Longrightarrow>
     hapgen_matrix_ok self' \<and> hapgen_shape self' = hapgen_shape self \<and>
     hapgen_bits self' = hapgen_bits self \<union> (\<Union>t\<in>set ts. tree_pairs t (tree_mutations t))"
proof (induction ts arbitrary: self)
  case Nil
  then show ?case by simp
next
  case (Cons t ts)
  from Cons.prems(1) obtain mid where
    one: "hapgen_apply_mutations self t (tree_mutations t) = Inr mid" and
    rest: "hapgen_apply_trees mid ts = Inr self'"
    by (auto split: sum.splits)
  note a = hapgen_apply_mutations_effect [OF one Cons.prems(2)]
  from a have ok: "hapgen_matrix_ok mid" by simp
  from Cons.IH [OF rest ok] a
  show ?case by auto
qed

lemma hapgen_alloc_Inr:
  "hapgen_alloc heap_ok ts = Inr h \<Longrightarrow>
     hapgen_apply_trees (hapgen_init ts) (ts_trees ts) = Inr h \<and> heap_ok \<and>
     ts_iter_end ts = None \<and> ts_sparse_tree_alloc ts = None \<and>
     (ts_num_mutations ts = 0 \<or> ts_mutation_types_num_records ts = 1)"
  by (auto simp: hapgen_alloc_def hapgen_init_def hapgen_generate_all_haplotypes_def Let_def
      split: if_splits option.splits sum.splits)

lemma hapgen_init_ok: "hapgen_matrix_ok (hapgen_init ts)"
  by (simp add: hapgen_matrix_ok_def hapgen_init_def)

lemma hapgen_init_bits: "hapgen_bits (hapgen_init ts) = {}"
proof -
  have "\<not> hapgen_bit (hapgen_init ts) r c"
    if "r < ts_sample_size ts" "c < (ts_num_mutations ts div 64 + 1) * 64" for r c
  proof -
    from that have "c div 64 < ts_num_mutations ts div 64 + 1"
      by (simp add: div_less_iff_less_mult)
    with that(1) have "r * (ts_num_mutations ts div 64 + 1) + c div 64
        < (ts_num_mutations ts div 64 + 1) * ts_sample_size ts"
      by (rule matrix_index_in_range)
    then show ?thesis
      by (simp add: hapgen_bit_def hapgen_init_def HG_WORD_SIZE_def)
  qed
  then show ?thesis
    by (auto simp: hapgen_bits_def hapgen_init_def HG_WORD_SIZE_def)
qed

lemma hapgen_alloc_built:
  assumes "hapgen_alloc heap_ok ts = Inr h"
  shows "hapgen_matrix_ok h"
    and "hapgen_shape h = hapgen_shape (hapgen_init ts)"
    and "hapgen_bits h = (\<Union>t\<in>set (ts_trees ts). tree_pairs t (tree_mutations t))"
proof -
  from assms have run: "hapgen_apply_trees (hapgen_init ts) (ts_trees ts) = Inr h"
    by (simp add: hapgen_alloc_Inr)
  note a = hapgen_apply_trees_effect [OF run hapgen_init_ok]
  from a show "hapgen_matrix_ok h" by simp
  from a show "hapgen_shape h = hapgen_shape (hapgen_init ts)" by simp
  from a show "hapgen_bits h = (\<Union>t\<in>set (ts_trees ts). tree_pairs t (tree_mutations t))"
    by (simp add: hapgen_init_bits)
qed

lemma hapgen_alloc_fields:
  assumes "hapgen_alloc heap_ok ts = Inr h"
  shows "sample_size h = ts_sample_size ts"
    and "num_mutations h = ts_num_mutations ts"
    and "words_per_row h = ts_num_mutations ts div 64 + 1"
    and "haplotype_size h = words_per_row h * 64 + 1"
    and "num_mutations h < words_per_row h * 64"
proof -
  from hapgen_alloc_built(2) [OF assms]
  show a: "sample_size h = ts_sample_size ts" "num_mutations h = ts_num_mutations ts"
    "words_per_row h = ts_num_mutations ts div 64 + 1"
    by (simp_all add: hapgen_shape_def hapgen_init_def HG_WORD_SIZE_def)
  from hapgen_alloc_built(2) [OF assms]
  show "haplotype_size h = words_per_row h * 64 + 1"
    by (simp add: hapgen_shape_def hapgen_init_def HG_WORD_SIZE_def)
  have "ts_num_mutations ts < (ts_num_mutations ts div 64 + 1) * 64"
    using div_less_iff_less_mult [of 64 "ts_num_mutations ts" "ts_num_mutations ts div 64 + 1"]
    by simp
  with a show "num_mutations h < words_per_row h * 64" by simp
qed

lemma tree_pairs_carries:
  "(size_t_of_node w, c) \<in> (\<Union>t\<in>set (ts_trees ts). tree_pairs t (tree_mutations t))
     \<longleftrightarrow> carries ts w c"
  by (auto simp: tree_pairs_def column_pairs_def carries_def dest: size_t_of_node_inj)

lemma hapgen_apply_trees_no_mutations:
  "\<forall>t \<in> set ts. tree_mutations t = [] \<Longrightarrow> hapgen_apply_trees self ts = Inr self"
  by (induction ts) simp_all

subsection \<open>The build as a list of attempts\<close>

lemma hapgen_set_bits_duplicate:
  "hapgen_matrix_ok self \<Longrightarrow>
   \<forall>(r, c) \<in> set xs. r < sample_size self \<and> c < words_per_row self * HG_WORD_SIZE \<Longrightarrow>
   \<not> (distinct xs \<and> set xs \<inter> hapgen_bits self = {}) \<Longrightarrow>
   hapgen_set_bits self xs = Inl MSP_ERR_INCONSISTENT_MUTATIONS"
proof (induction xs arbitrary: self)
  case Nil
  then show ?case by simp
next
  case (Cons x xs)
  obtain r c where x: "x = (r, c)" by (cases x)
  from Cons.prems(2) x have r: "r < sample_size self"
    and c: "c < words_per_row self * HG_WORD_SIZE" by simp_all
  show ?case
  proof (cases "hapgen_bit self r c")
    case True
    with hapgen_set_bit_in_range(1) [OF Cons.prems(1) r c] x show ?thesis by simp
  next
    case False
    with hapgen_set_bit_in_range(2) [OF Cons.prems(1) r c]
    obtain mid where mid: "hapgen_set_bit self r c = Inr mid" by blast
    note ok = hapgen_set_bit_ok [OF mid Cons.prems(1)]
    note bits = hapgen_set_bit_bits(1) [OF mid Cons.prems(1)]
    from hapgen_set_bit_shape [OF mid]
    have same: "sample_size mid = sample_size self" "words_per_row mid = words_per_row self"
      by (simp_all add: hapgen_shape_def)
    from False have nin: "(r, c) \<notin> hapgen_bits self" by (simp add: hapgen_bits_def)
    have range: "\<forall>(r, c) \<in> set xs. r < sample_size mid \<and> c < words_per_row mid * HG_WORD_SIZE"
      using Cons.prems(2) by (simp add: same)
    have dup: "\<not> (distinct xs \<and> set xs \<inter> hapgen_bits mid = {})"
      using Cons.prems(3) nin by (auto simp: x bits)
    from Cons.IH [OF ok range dup] mid x show ?thesis by simp
  qed
qed

lemma hapgen_set_bits_append:
  "hapgen_set_bits self (xs @ ys) =
     (case hapgen_set_bits self xs of Inl e \<Rightarrow> Inl e | Inr self' \<Rightarrow> hapgen_set_bits self' ys)"
  by (induction self xs rule: hapgen_set_bits.induct) (simp_all split: sum.splits)

lemma hapgen_set_leaves_bits:
  "hapgen_set_leaves self ws c = hapgen_set_bits self (map (\<lambda>w. (size_t_of_node w, c)) ws)"
  by (induction ws arbitrary: self) (simp_all split: sum.splits)

lemma hapgen_apply_nodes_bits:
  "\<forall>u \<in> set us. leaf_list_ok ts t u \<Longrightarrow>
   hapgen_apply_nodes self t us c =
     hapgen_set_bits self
       (concat (map (\<lambda>u. map (\<lambda>w. (size_t_of_node w, c)) (leaves_of t u)) us))"
proof (induction us arbitrary: self)
  case Nil
  then show ?case by simp
next
  case (Cons u us)
  from Cons.prems obtain ws where ws: "leaf_list t u = Inr ws"
    by (auto simp: leaf_list_ok_def split: sum.splits)
  then have lo: "leaves_of t u = ws" by (simp add: leaves_of_def)
  from Cons.prems have rest: "\<forall>u \<in> set us. leaf_list_ok ts t u" by simp
  show ?case
    by (simp add: ws lo hapgen_set_leaves_bits hapgen_set_bits_append Cons.IH [OF rest]
        split: sum.splits)
qed

lemma hapgen_apply_mutations_bits:
  "\<forall>m \<in> set ms. \<forall>u \<in> set (mut_nodes m). leaf_list_ok ts t u \<Longrightarrow>
   hapgen_apply_mutations self t ms =
     hapgen_set_bits self (concat (map (hapgen_attempts_mutation t) ms))"
proof (induction ms arbitrary: self)
  case Nil
  then show ?case by simp
next
  case (Cons m ms)
  from Cons.prems have one: "\<forall>u \<in> set (mut_nodes m). leaf_list_ok ts t u"
    and rest: "\<forall>m \<in> set ms. \<forall>u \<in> set (mut_nodes m). leaf_list_ok ts t u" by simp_all
  show ?case
    by (simp add: hapgen_apply_tree_mutation_def hapgen_apply_nodes_bits [OF one]
        hapgen_attempts_mutation_def [symmetric] hapgen_set_bits_append Cons.IH [OF rest]
        split: sum.splits)
qed

lemma hapgen_apply_trees_bits:
  "\<forall>t \<in> set trees. \<forall>m \<in> set (tree_mutations t). \<forall>u \<in> set (mut_nodes m). leaf_list_ok ts t u \<Longrightarrow>
   hapgen_apply_trees self trees =
     hapgen_set_bits self (concat (map hapgen_attempts_tree trees))"
proof (induction trees arbitrary: self)
  case Nil
  then show ?case by simp
next
  case (Cons t trees)
  from Cons.prems have one: "\<forall>m \<in> set (tree_mutations t). \<forall>u \<in> set (mut_nodes m). leaf_list_ok ts t u"
    and rest: "\<forall>t \<in> set trees. \<forall>m \<in> set (tree_mutations t).
                 \<forall>u \<in> set (mut_nodes m). leaf_list_ok ts t u" by simp_all
  show ?case
    by (simp add: hapgen_apply_mutations_bits [OF one]
        hapgen_attempts_tree_def [symmetric] hapgen_set_bits_append Cons.IH [OF rest]
        split: sum.splits)
qed

lemma hapgen_attempts_in_range:
  assumes wf: "hapgen_wf ts" and x: "(r, c) \<in> set (hapgen_attempts ts)"
  shows "r < ts_sample_size ts \<and> c < ts_num_mutations ts"
proof -
  from x obtain t m u w where t: "t \<in> set (ts_trees ts)" and m: "m \<in> set (tree_mutations t)"
    and u: "u \<in> set (mut_nodes m)" and w: "w \<in> set (leaves_of t u)"
    and r: "r = size_t_of_node w" and c: "c = mut_index m"
    by (auto simp: hapgen_attempts_def hapgen_attempts_tree_def hapgen_attempts_mutation_def)
  from wf t m u have idx: "mut_index m < ts_num_mutations ts" and ok: "leaf_list_ok ts t u"
    by (auto simp: hapgen_wf_def)
  from ok w have "0 \<le> sint w \<and> sint w < int (ts_sample_size ts)"
    by (auto simp: leaf_list_ok_def leaves_of_def split: sum.splits)
  then have "nat (sint w) < ts_sample_size ts" and "size_t_of_node w = nat (sint w)"
    by (simp_all add: size_t_of_node_nonneg nat_less_iff)
  then show ?thesis using idx r c by simp
qed

subsection \<open>Reading a row\<close>

lemma length_hapgen_word_chars: "length (hapgen_word_chars w) = 64"
  by (simp add: hapgen_word_chars_def HG_WORD_SIZE_def)

lemma nth_hapgen_word_chars:
  "k < 64 \<Longrightarrow> hapgen_word_chars w ! k = (if bit w k then CHR ''1'' else CHR ''0'')"
  using drop_bit_and_one_neq_0 [of k w]
  by (simp add: hapgen_word_chars_def HG_WORD_SIZE_def)

lemma length_concat_words:
  "length (concat (map (\<lambda>i. hapgen_word_chars (f i)) [0..<n])) = n * 64"
  by (induction n) (simp_all add: length_hapgen_word_chars)

lemma nth_concat_words:
  "c < n * 64 \<Longrightarrow>
     concat (map (\<lambda>i. hapgen_word_chars (f i)) [0..<n]) ! c =
       hapgen_word_chars (f (c div 64)) ! (c mod 64)"
proof (induction n)
  case 0
  then show ?case by simp
next
  case (Suc n)
  show ?case
  proof (cases "c < n * 64")
    case True
    with Suc.IH show ?thesis
      by (simp add: nth_append length_concat_words)
  next
    case False
    with Suc.prems have "c div 64 = n" by (simp add: div_nat_eqI mult.commute)
    moreover from this have "c mod 64 = c - n * 64"
      by (metis add_diff_cancel_left' mult.commute mult_div_mod_eq)
    ultimately show ?thesis
      using False by (simp add: nth_append length_concat_words)
  qed
qed

lemma hapgen_get_haplotype_loop_run:
  "hapgen_matrix_ok self \<Longrightarrow> haplotype_size self = words_per_row self * 64 + 1 \<Longrightarrow>
   row < sample_size self \<Longrightarrow> j \<le> words_per_row self \<Longrightarrow> length buf = j * 64 \<Longrightarrow>
   hapgen_get_haplotype_loop self row j buf = Inr (buf @ hapgen_row_chars self row j)"
proof (induction self row j buf rule: hapgen_get_haplotype_loop.induct)
  case (1 self row j buf)
  show ?case
  proof (cases "j < words_per_row self")
    case False
    then show ?thesis
      by (simp add: hapgen_row_chars_def)
  next
    case True
    let ?i = "row * words_per_row self + j"
    have idx: "?i < length (haplotype_matrix self)"
      using "1.prems"(1,3) True by (simp add: hapgen_matrix_ok_def matrix_index_in_range)
    have room: "length buf + HG_WORD_SIZE \<le> haplotype_size self"
    proof -
      from True have "Suc j \<le> words_per_row self" by simp
      then have "Suc j * 64 \<le> words_per_row self * 64" by (rule mult_le_mono1)
      then show ?thesis using "1.prems"(2,5) by (simp add: HG_WORD_SIZE_def)
    qed
    have step: "hapgen_get_haplotype_loop self row (j + 1)
          (buf @ hapgen_word_chars (haplotype_matrix self ! ?i))
        = Inr ((buf @ hapgen_word_chars (haplotype_matrix self ! ?i))
               @ hapgen_row_chars self row (j + 1))"
      using True idx room "1.prems"
      by (intro "1.IH") (simp_all add: length_hapgen_word_chars)
    have unfold: "hapgen_row_chars self row j =
        hapgen_word_chars (haplotype_matrix self ! ?i) @ hapgen_row_chars self row (j + 1)"
      using True by (simp add: hapgen_row_chars_def upt_conv_Cons)
    show ?thesis
      using True idx room step unfold
      by (subst hapgen_get_haplotype_loop.simps) simp
  qed
qed

lemma hapgen_get_haplotype_built:
  assumes ok: "hapgen_matrix_ok self"
    and hs: "haplotype_size self = words_per_row self * 64 + 1"
    and n: "num_mutations self < words_per_row self * 64"
    and lo: "0 \<le> sint sample_id" and hi: "sint sample_id < sint (node_of_size_t (sample_size self))"
    and row: "nat (sint sample_id) < sample_size self"
  shows "hapgen_get_haplotype self sample_id =
     Inr (map (\<lambda>c. if hapgen_bit self (nat (sint sample_id)) c then CHR ''1'' else CHR ''0'')
            [0..<num_mutations self])"
proof -
  let ?row = "nat (sint sample_id)"
  let ?buf = "hapgen_row_chars self ?row 0"
  have r: "size_t_of_node sample_id = ?row" using lo by (rule size_t_of_node_nonneg)
  have run: "hapgen_get_haplotype_loop self ?row 0 [] = Inr ?buf"
    using hapgen_get_haplotype_loop_run [OF ok hs row, of 0 "[]"] by simp
  have len: "length ?buf = words_per_row self * 64"
    by (simp add: hapgen_row_chars_def length_concat_words)
  have nth: "?buf ! c = (if hapgen_bit self ?row c then CHR ''1'' else CHR ''0'')"
    if "c < words_per_row self * 64" for c
    using that by (simp add: hapgen_row_chars_def nth_concat_words nth_hapgen_word_chars
        hapgen_bit_def HG_WORD_SIZE_def)
  have "take (num_mutations self) ?buf =
      map (\<lambda>c. if hapgen_bit self ?row c then CHR ''1'' else CHR ''0'') [0..<num_mutations self]"
    using n len nth by (intro nth_equalityI) simp_all
  then show ?thesis
    using hi n hs len run
    by (simp add: hapgen_get_haplotype_def hapgen_sample_out_of_bounds_def r)
qed

lemma hapgen_valid_sample:
  assumes "0 \<le> sint sample_id" "sint sample_id < int (sample_size h)" "sample_size h < 2 ^ 31"
  shows "\<not> hapgen_sample_out_of_bounds h sample_id"
    and "nat (sint sample_id) < sample_size h"
    and "sint sample_id < sint (node_of_size_t (sample_size h))"
  using assms by (simp_all add: hapgen_sample_out_of_bounds_def sint_node_of_size_t)

lemma hapgen_built_bit:
  assumes built: "hapgen_alloc heap_ok ts = Inr h"
    and lo: "0 \<le> sint sample_id" and hi: "sint sample_id < int (sample_size h)"
    and c: "c < num_mutations h"
  shows "hapgen_bit h (nat (sint sample_id)) c = carries ts sample_id c"
proof -
  have row: "nat (sint sample_id) < sample_size h" using lo hi by simp
  have col: "c < words_per_row h * HG_WORD_SIZE"
    using c hapgen_alloc_fields(5) [OF built] by (simp add: HG_WORD_SIZE_def)
  have "hapgen_bit h (nat (sint sample_id)) c
      \<longleftrightarrow> (size_t_of_node sample_id, c) \<in> hapgen_bits h"
    using row col lo by (simp add: hapgen_bits_def size_t_of_node_nonneg)
  also have "\<dots> \<longleftrightarrow> carries ts sample_id c"
    by (simp only: hapgen_alloc_built(3) [OF built] tree_pairs_carries)
  finally show ?thesis .
qed

lemma hapgen_get_haplotype_decoded:
  assumes built: "hapgen_alloc heap_ok ts = Inr h"
    and fits: "sample_size h < 2 ^ 31"
    and lo: "0 \<le> sint sample_id" and hi: "sint sample_id < int (sample_size h)"
  shows "hapgen_get_haplotype h sample_id =
           Inr (map (\<lambda>c. if carries ts sample_id c then CHR ''1'' else CHR ''0'')
                  [0..<ts_num_mutations ts])"
proof -
  note f = hapgen_alloc_fields [OF built]
  note v = hapgen_valid_sample [OF lo hi fits]
  have "hapgen_get_haplotype h sample_id =
      Inr (map (\<lambda>c. if hapgen_bit h (nat (sint sample_id)) c then CHR ''1'' else CHR ''0'')
             [0..<num_mutations h])"
    using hapgen_alloc_built(1) [OF built] f(4) f(5) lo v(3) v(2)
    by (rule hapgen_get_haplotype_built)
  also have "map (\<lambda>c. if hapgen_bit h (nat (sint sample_id)) c then CHR ''1'' else CHR ''0'')
        [0..<num_mutations h]
      = map (\<lambda>c. if carries ts sample_id c then CHR ''1'' else CHR ''0'')
          [0..<ts_num_mutations ts]"
    using hapgen_built_bit [OF built lo hi] by (simp add: f(2))
  finally show ?thesis .
qed

subsection \<open>The concrete generators\<close>

lemma ex_alloc: "hapgen_alloc True ex_ts = Inr ex_hapgen"
  by (simp add: hapgen_alloc_def ex_ts_def ex_tree_def ex_hapgen_def HG_WORD_SIZE_def
      hapgen_generate_all_haplotypes_def hapgen_apply_tree_mutation_def hapgen_set_bit_def
      Let_def numeral_3_eq_3)

lemma ex_alloc_empty: "hapgen_alloc True ex_ts_empty = Inr ex_hapgen_empty"
  by (simp add: hapgen_alloc_def ex_ts_empty_def ex_hapgen_empty_def HG_WORD_SIZE_def
      hapgen_generate_all_haplotypes_def Let_def numeral_2_eq_2)

lemma ex_ts_carries:
  "carries ex_ts 1 0" "carries ex_ts 1 1" "carries ex_ts 0 0" "\<not> carries ex_ts 0 1"
  by (simp_all add: carries_def ex_ts_def ex_tree_def mutation_samples_def leaves_of_def)

subsection \<open>Words per row\<close>

text \<open>
  Claim C2, amended. The claim reads: for every tree sequence accepted by
  \<open>hapgen_alloc\<close>, \<open>words_per_row\<close> is the ceiling of \<open>num_mutations / 64\<close>. The code
  computes \<open>num_mutations / 64 + 1\<close> with integer division. So \<open>words_per_row\<close> of
  every generator \<open>hapgen_alloc\<close> returns is the floor of \<open>num_mutations / 64\<close> plus
  one: the ceiling when 64 does not divide the mutation count, and one more than the
  ceiling when it does.
\<close>

theorem hapgen_alloc_words_per_row:
  "hapgen_alloc heap_ok tree_sequence = Inr h \<Longrightarrow>
     words_per_row h = ts_num_mutations tree_sequence div HG_WORD_SIZE + 1 \<and>
     words_per_row h =
       hapgen_words_per_row_spec (ts_num_mutations tree_sequence)
         + (if HG_WORD_SIZE dvd ts_num_mutations tree_sequence then 1 else 0)"
  using hapgen_alloc_fields(3) [of heap_ok tree_sequence h]
  by (simp add: hapgen_words_per_row_spec_def HG_WORD_SIZE_def ceiling_div_64)

text \<open>
  The theorem at the tree sequence with two mutations: one word per row, which is the
  ceiling of \<open>2 / 64\<close>.
\<close>

theorem hapgen_alloc_words_per_row_witness:
  "hapgen_alloc True ex_ts = Inr ex_hapgen \<and>
   words_per_row ex_hapgen = 2 div HG_WORD_SIZE + 1 \<and>
   words_per_row ex_hapgen = hapgen_words_per_row_spec 2"
  using hapgen_alloc_words_per_row [OF ex_alloc] ex_alloc
  by (simp add: ex_ts_def HG_WORD_SIZE_def)

text \<open>
  Claim C2 as stated fails where 64 divides the mutation count: the tree sequence
  without mutations is accepted and gets one word per row, while the ceiling of
  \<open>0 / 64\<close> is 0.
\<close>

theorem hapgen_alloc_words_per_row_counterexample:
  "hapgen_alloc True ex_ts_empty = Inr ex_hapgen_empty \<and>
   words_per_row ex_hapgen_empty \<noteq> hapgen_words_per_row_spec (num_mutations ex_hapgen_empty)"
  using ex_alloc_empty
  by (simp add: ex_hapgen_empty_def hapgen_words_per_row_spec_def)

subsection \<open>Haplotype strings\<close>

text \<open>
  Claim C3. For a generator built by \<open>hapgen_alloc\<close> from a tree sequence with \<open>k\<close>
  mutations and a sample id with \<open>0 \<le> sample_id < sample_size\<close>, \<open>hapgen_get_haplotype\<close>
  returns a string of exactly \<open>k\<close> characters, each \<open>0\<close> or \<open>1\<close>, whose character at
  column \<open>c\<close> is \<open>1\<close> exactly when the sample is in the leaf list of a node of a
  mutation with index \<open>c\<close> in the tree that carries it, and \<open>0\<close> otherwise. The sample
  count is a \<open>node_id_t\<close> value (below \<open>2 ^ 31\<close>): the guard of
  \<open>hapgen_get_haplotype\<close> compares against \<open>(node_id_t) sample_size\<close>, a cast that C
  defines for such counts only.
\<close>

theorem hapgen_get_haplotype_round_trip:
  assumes built: "hapgen_alloc heap_ok tree_sequence = Inr h"
    and fits: "sample_size h < 2 ^ 31"
    and lo: "0 \<le> sint sample_id" and hi: "sint sample_id < int (sample_size h)"
  shows "\<exists>s. hapgen_get_haplotype h sample_id = Inr s
           \<and> length s = ts_num_mutations tree_sequence
           \<and> set s \<subseteq> {CHR ''0'', CHR ''1''}
           \<and> (\<forall>c < ts_num_mutations tree_sequence.
                 s ! c = (if carries tree_sequence sample_id c then CHR ''1'' else CHR ''0''))"
proof -
  let ?s = "map (\<lambda>c. if carries tree_sequence sample_id c then CHR ''1'' else CHR ''0'')
              [0..<ts_num_mutations tree_sequence]"
  have get: "hapgen_get_haplotype h sample_id = Inr ?s"
    using built fits lo hi by (rule hapgen_get_haplotype_decoded)
  have len: "length ?s = ts_num_mutations tree_sequence" by simp
  have chars: "set ?s \<subseteq> {CHR ''0'', CHR ''1''}" by auto
  have nth: "\<forall>c < ts_num_mutations tree_sequence.
      ?s ! c = (if carries tree_sequence sample_id c then CHR ''1'' else CHR ''0'')"
    by simp
  from get len chars nth show ?thesis by blast
qed

text \<open>
  The theorem at the generator of three samples: sample 0 is below mutation 0 only, and
  its haplotype is \<open>10\<close>.
\<close>

theorem hapgen_get_haplotype_round_trip_witness:
  "hapgen_alloc True ex_ts = Inr ex_hapgen \<and> sample_size ex_hapgen < 2 ^ 31
   \<and> 0 \<le> sint (0 :: node_id_t) \<and> sint (0 :: node_id_t) < int (sample_size ex_hapgen)
   \<and> hapgen_get_haplotype ex_hapgen 0 = Inr ''10''"
proof -
  have fits: "sample_size ex_hapgen < 2 ^ 31" by (simp add: ex_hapgen_def)
  have lo: "0 \<le> sint (0 :: node_id_t)" by simp
  have hi: "sint (0 :: node_id_t) < int (sample_size ex_hapgen)" by (simp add: ex_hapgen_def)
  from hapgen_get_haplotype_round_trip [OF ex_alloc fits lo hi]
  obtain s where get: "hapgen_get_haplotype ex_hapgen 0 = Inr s"
    and len: "length s = ts_num_mutations ex_ts"
    and nth: "\<forall>c < ts_num_mutations ex_ts.
                s ! c = (if carries ex_ts 0 c then CHR ''1'' else CHR ''0'')"
    by blast
  have n: "ts_num_mutations ex_ts = 2" by (simp add: ex_ts_def)
  from nth ex_ts_carries have "s ! 0 = CHR ''1''" "s ! 1 = CHR ''0''"
    by (simp_all add: n)
  with len n have "s = ''10''"
    by (intro nth_equalityI) (auto simp: less_Suc_eq numeral_2_eq_2)
  with get ex_alloc fits lo hi show ?thesis by simp
qed

subsection \<open>The bounds of the sample id\<close>

text \<open>
  Claim C7. For a built generator, \<open>hapgen_get_haplotype\<close> with the sample id equal to
  the sample count fails with \<open>MSP_ERR_OUT_OF_BOUNDS\<close>, and, when there is a sample at
  all, with the sample id one less than the sample count it returns a string.
\<close>

theorem hapgen_get_haplotype_boundary:
  assumes built: "hapgen_alloc heap_ok tree_sequence = Inr h"
    and one_past: "sint one_past = int (sample_size h)"
  shows "hapgen_get_haplotype h one_past = Inl MSP_ERR_OUT_OF_BOUNDS
       \<and> (\<forall>last_id. 0 < sample_size h \<and> sint last_id = int (sample_size h) - 1
             \<longrightarrow> (\<exists>s. hapgen_get_haplotype h last_id = Inr s))"
proof -
  have "sint one_past < 2 ^ 31"
    using sint_node_bounds [of one_past] by simp
  then have "int (sample_size h) < 2 ^ 31"
    by (simp only: one_past)
  then have fits: "sample_size h < 2 ^ 31"
    by (simp only: of_nat_less_numeral_power_cancel_iff)
  have "hapgen_sample_out_of_bounds h one_past"
    using one_past fits by (simp add: hapgen_sample_out_of_bounds_def sint_node_of_size_t)
  then have first: "hapgen_get_haplotype h one_past = Inl MSP_ERR_OUT_OF_BOUNDS"
    by (simp add: hapgen_get_haplotype_def)
  have "\<exists>s. hapgen_get_haplotype h last_id = Inr s"
    if "0 < sample_size h" "sint last_id = int (sample_size h) - 1" for last_id
    using hapgen_get_haplotype_decoded [OF built fits, of last_id] that by simp
  with first show ?thesis by blast
qed

text \<open>
  The theorem at the generator of three samples: id 3 is refused, id 2 is served.
\<close>

theorem hapgen_get_haplotype_boundary_witness:
  "hapgen_alloc True ex_ts = Inr ex_hapgen \<and> sint (3 :: node_id_t) = int (sample_size ex_hapgen)
   \<and> hapgen_get_haplotype ex_hapgen 3 = Inl MSP_ERR_OUT_OF_BOUNDS
   \<and> (\<exists>s. hapgen_get_haplotype ex_hapgen 2 = Inr s)"
proof -
  have one_past: "sint (3 :: node_id_t) = int (sample_size ex_hapgen)"
    by (simp add: ex_hapgen_def)
  have last_id: "0 < sample_size ex_hapgen \<and> sint (2 :: node_id_t) = int (sample_size ex_hapgen) - 1"
    by (simp add: ex_hapgen_def)
  from hapgen_get_haplotype_boundary [OF ex_alloc one_past] last_id ex_alloc one_past
  show ?thesis by blast
qed

text \<open>
  Claim C8. \<open>hapgen_get_haplotype\<close> checks the upper bound only. For a negative sample
  id (and a sample count that is a \<open>node_id_t\<close> value) the guard does not fire, the row
  index \<open>(size_t) sample_id\<close> is at least the sample count, and the first read of the
  matrix, which nothing guards, lies outside the matrix.
\<close>

theorem hapgen_get_haplotype_negative_sample:
  assumes built: "hapgen_alloc heap_ok tree_sequence = Inr h"
    and fits: "sample_size h < 2 ^ 31"
    and neg: "sint sample_id < 0"
  shows "\<not> hapgen_sample_out_of_bounds h sample_id
       \<and> sample_size h \<le> size_t_of_node sample_id
       \<and> hapgen_get_haplotype h sample_id = Inl MEMORY_FAULT"
proof -
  have guard: "\<not> hapgen_sample_out_of_bounds h sample_id"
    using neg fits by (simp add: hapgen_sample_out_of_bounds_def sint_node_of_size_t)
  have big: "2 ^ 31 \<le> size_t_of_node sample_id"
    using neg sint_node_bounds [of sample_id] by (simp add: size_t_of_node_neg)
  with fits have row: "sample_size h \<le> size_t_of_node sample_id" by simp
  have wpr: "0 < words_per_row h" using hapgen_alloc_fields(3) [OF built] by simp
  have "sample_size h * words_per_row h \<le> size_t_of_node sample_id * words_per_row h"
    using row by (rule mult_le_mono1)
  moreover have "length (haplotype_matrix h) = sample_size h * words_per_row h"
    using hapgen_alloc_built(1) [OF built] by (simp add: hapgen_matrix_ok_def mult.commute)
  ultimately have out:
    "\<not> size_t_of_node sample_id * words_per_row h + 0 < length (haplotype_matrix h)"
    by linarith
  have "hapgen_get_haplotype_loop h (size_t_of_node sample_id) 0 [] = Inl MEMORY_FAULT"
    using wpr out by (subst hapgen_get_haplotype_loop.simps) simp
  with guard row show ?thesis by (simp add: hapgen_get_haplotype_def)
qed

text \<open>
  The theorem at the generator of three samples and sample id -1, whose row index is
  \<open>2 ^ 64 - 1\<close>.
\<close>

theorem hapgen_get_haplotype_negative_sample_witness:
  "hapgen_alloc True ex_ts = Inr ex_hapgen \<and> sample_size ex_hapgen < 2 ^ 31
   \<and> sint (- 1 :: node_id_t) < 0
   \<and> \<not> hapgen_sample_out_of_bounds ex_hapgen (- 1)
   \<and> sample_size ex_hapgen \<le> size_t_of_node (- 1)
   \<and> hapgen_get_haplotype ex_hapgen (- 1) = Inl MEMORY_FAULT"
proof -
  have fits: "sample_size ex_hapgen < 2 ^ 31" by (simp add: ex_hapgen_def)
  have neg: "sint (- 1 :: node_id_t) < 0" by simp
  from hapgen_get_haplotype_negative_sample [OF ex_alloc fits neg] ex_alloc fits neg
  show ?thesis by blast
qed

subsection \<open>Tree sequences without mutations\<close>

text \<open>
  Claim C9. \<open>hapgen_alloc\<close> checks the number of mutation types only when there is a
  mutation. For a tree sequence without mutations (no tree carries one), whatever the
  number \<open>k\<close> of records of its mutation-type table, \<open>hapgen_alloc\<close> returns what it
  returns for any other number of records; the build succeeds when the allocations
  succeed and the tree iterator reports no error, and the haplotype of every valid
  sample is then the empty string.
\<close>

theorem hapgen_alloc_no_mutations:
  assumes none: "ts_num_mutations tree_sequence = 0"
    and trees: "\<forall>t \<in> set (ts_trees tree_sequence). tree_mutations t = []"
    and alloc: "ts_sparse_tree_alloc tree_sequence = None"
    and iter: "ts_iter_end tree_sequence = None"
  shows "hapgen_alloc heap_ok (tree_sequence\<lparr>ts_mutation_types_num_records := k\<rparr>)
           = hapgen_alloc heap_ok tree_sequence
       \<and> (\<exists>h. hapgen_alloc True (tree_sequence\<lparr>ts_mutation_types_num_records := k\<rparr>) = Inr h
              \<and> (\<forall>sample_id. sample_size h < 2 ^ 31 \<and> 0 \<le> sint sample_id
                     \<and> sint sample_id < int (sample_size h)
                   \<longrightarrow> hapgen_get_haplotype h sample_id = Inr []))"
proof -
  let ?ts = "tree_sequence\<lparr>ts_mutation_types_num_records := k\<rparr>"
  let ?h = "hapgen_init ?ts"
  have same: "hapgen_alloc heap_ok ?ts = hapgen_alloc heap_ok tree_sequence"
    using none
    by (simp add: hapgen_alloc_def hapgen_generate_all_haplotypes_def Let_def
        split: option.splits sum.splits)
  have built: "hapgen_alloc True ?ts = Inr ?h"
    using none alloc iter hapgen_apply_trees_no_mutations [OF trees, of ?h]
    by (simp add: hapgen_alloc_def hapgen_generate_all_haplotypes_def hapgen_init_def Let_def)
  have "hapgen_get_haplotype ?h sample_id = Inr []"
    if "sample_size ?h < 2 ^ 31" "0 \<le> sint sample_id" "sint sample_id < int (sample_size ?h)"
    for sample_id
  proof -
    from hapgen_get_haplotype_decoded [OF built that] none
    show ?thesis by simp
  qed
  with built same show ?thesis by blast
qed

text \<open>
  The theorem at the tree sequence without mutations and twelve mutation types.
\<close>

theorem hapgen_alloc_no_mutations_witness:
  "ts_num_mutations ex_ts_empty = 0 \<and> map tree_mutations (ts_trees ex_ts_empty) = [[]]
   \<and> ts_mutation_types_num_records ex_ts_empty = 12
   \<and> hapgen_alloc True ex_ts_empty = Inr ex_hapgen_empty
   \<and> hapgen_get_haplotype ex_hapgen_empty 1 = Inr []"
proof -
  have none: "ts_num_mutations ex_ts_empty = 0" by (simp add: ex_ts_empty_def)
  have trees: "\<forall>t \<in> set (ts_trees ex_ts_empty). tree_mutations t = []"
    by (simp add: ex_ts_empty_def)
  have alloc: "ts_sparse_tree_alloc ex_ts_empty = None" by (simp add: ex_ts_empty_def)
  have iter: "ts_iter_end ex_ts_empty = None" by (simp add: ex_ts_empty_def)
  have same: "ex_ts_empty\<lparr>ts_mutation_types_num_records := 12\<rparr> = ex_ts_empty"
    by (simp add: ex_ts_empty_def)
  from hapgen_alloc_no_mutations [OF none trees alloc iter, of True 12]
  obtain h where built: "hapgen_alloc True ex_ts_empty = Inr h"
    and get: "\<forall>sample_id. sample_size h < 2 ^ 31 \<and> 0 \<le> sint sample_id
                \<and> sint sample_id < int (sample_size h)
              \<longrightarrow> hapgen_get_haplotype h sample_id = Inr []"
    by (auto simp: same)
  from built ex_alloc_empty have h: "h = ex_hapgen_empty" by simp
  have "sample_size ex_hapgen_empty < 2 ^ 31 \<and> 0 \<le> sint (1 :: node_id_t)
      \<and> sint (1 :: node_id_t) < int (sample_size ex_hapgen_empty)"
    by (simp add: ex_hapgen_empty_def)
  with get h have "hapgen_get_haplotype ex_hapgen_empty 1 = Inr []" by blast
  with ex_alloc_empty show ?thesis by (simp add: ex_ts_empty_def)
qed

subsection \<open>Inconsistent mutations\<close>

text \<open>
  Claim C4. Setting a bit of the matrix that is set already fails with
  \<open>MSP_ERR_INCONSISTENT_MUTATIONS\<close>, and the build does not swallow the failure: for a
  well-formed tree sequence that passes the checks of \<open>hapgen_alloc\<close> and whose build
  reaches some (sample, column) pair a second time, \<open>hapgen_alloc\<close> returns
  \<open>MSP_ERR_INCONSISTENT_MUTATIONS\<close> to its caller.
\<close>

theorem hapgen_alloc_inconsistent_mutations:
  assumes wf: "hapgen_wf tree_sequence"
    and types: "ts_mutation_types_num_records tree_sequence = 1"
    and alloc: "ts_sparse_tree_alloc tree_sequence = None"
    and dup: "\<not> distinct (hapgen_attempts tree_sequence)"
  shows "(hapgen_matrix_ok self \<and> row < sample_size self
            \<and> column < words_per_row self * HG_WORD_SIZE \<and> hapgen_bit self row column
          \<longrightarrow> hapgen_set_bit self row column = Inl MSP_ERR_INCONSISTENT_MUTATIONS)
       \<and> hapgen_alloc True tree_sequence = Inl MSP_ERR_INCONSISTENT_MUTATIONS"
proof -
  let ?h = "hapgen_init tree_sequence"
  have leafs: "\<forall>t \<in> set (ts_trees tree_sequence). \<forall>m \<in> set (tree_mutations t).
      \<forall>u \<in> set (mut_nodes m). leaf_list_ok tree_sequence t u"
    using wf by (simp add: hapgen_wf_def)
  have "ts_num_mutations tree_sequence < (ts_num_mutations tree_sequence div 64 + 1) * 64"
    using div_less_iff_less_mult [of 64 "ts_num_mutations tree_sequence"
        "ts_num_mutations tree_sequence div 64 + 1"] by simp
  then have range: "\<forall>(r, c) \<in> set (hapgen_attempts tree_sequence).
      r < sample_size ?h \<and> c < words_per_row ?h * HG_WORD_SIZE"
    using hapgen_attempts_in_range [OF wf]
    by (fastforce simp: hapgen_init_def HG_WORD_SIZE_def)
  have "hapgen_set_bits ?h (hapgen_attempts tree_sequence) = Inl MSP_ERR_INCONSISTENT_MUTATIONS"
    using hapgen_init_ok range by (rule hapgen_set_bits_duplicate) (simp add: dup)
  then have "hapgen_apply_trees ?h (ts_trees tree_sequence) = Inl MSP_ERR_INCONSISTENT_MUTATIONS"
    by (simp add: hapgen_apply_trees_bits [OF leafs] hapgen_attempts_def)
  then have "hapgen_alloc True tree_sequence = Inl MSP_ERR_INCONSISTENT_MUTATIONS"
    using types alloc
    by (simp add: hapgen_alloc_def hapgen_generate_all_haplotypes_def hapgen_init_def Let_def)
  then show ?thesis
    using hapgen_set_bit_in_range(1) [of self row column] by blast
qed

text \<open>
  The theorem at the malformed tree sequence, whose build reaches (0, 0) twice, and at
  a set bit of the generator of three samples.
\<close>

theorem hapgen_alloc_inconsistent_mutations_witness:
  "hapgen_wf ex_ts_dup \<and> ts_mutation_types_num_records ex_ts_dup = 1
   \<and> ts_sparse_tree_alloc ex_ts_dup = None
   \<and> hapgen_attempts ex_ts_dup = [(0, 0), (1, 0), (0, 0)]
   \<and> hapgen_matrix_ok ex_hapgen \<and> hapgen_bit ex_hapgen 1 1
   \<and> hapgen_set_bit ex_hapgen 1 1 = Inl MSP_ERR_INCONSISTENT_MUTATIONS
   \<and> hapgen_alloc True ex_ts_dup = Inl MSP_ERR_INCONSISTENT_MUTATIONS"
proof -
  have wf: "hapgen_wf ex_ts_dup"
    by (simp add: hapgen_wf_def ex_ts_dup_def leaf_list_ok_def)
  have types: "ts_mutation_types_num_records ex_ts_dup = 1" by (simp add: ex_ts_dup_def)
  have alloc: "ts_sparse_tree_alloc ex_ts_dup = None" by (simp add: ex_ts_dup_def)
  have attempts: "hapgen_attempts ex_ts_dup = [(0, 0), (1, 0), (0, 0)]"
    by (simp add: hapgen_attempts_def hapgen_attempts_tree_def hapgen_attempts_mutation_def
        ex_ts_dup_def leaves_of_def)
  then have dup: "\<not> distinct (hapgen_attempts ex_ts_dup)" by simp
  have ok: "hapgen_matrix_ok ex_hapgen" by (simp add: hapgen_matrix_ok_def ex_hapgen_def)
  have range: "1 < sample_size ex_hapgen \<and> 1 < words_per_row ex_hapgen * HG_WORD_SIZE"
    by (simp add: ex_hapgen_def HG_WORD_SIZE_def)
  have bit: "hapgen_bit ex_hapgen 1 1"
    by (simp add: hapgen_bit_def ex_hapgen_def HG_WORD_SIZE_def)
  from hapgen_alloc_inconsistent_mutations
         [OF wf types alloc dup, of ex_hapgen 1 1] ok range bit
  have "hapgen_set_bit ex_hapgen 1 1 = Inl MSP_ERR_INCONSISTENT_MUTATIONS
      \<and> hapgen_alloc True ex_ts_dup = Inl MSP_ERR_INCONSISTENT_MUTATIONS"
    by blast
  with wf types alloc attempts ok bit show ?thesis by blast
qed

section \<open>Properties of the mutation generator\<close>

subsection \<open>The site index\<close>

lemma cmp_site_less: "cmp_site a b < 0 \<longleftrightarrow> a < b"
  by (simp add: cmp_site_def)

lemma cmp_site_eq: "cmp_site a b = 0 \<longleftrightarrow> a = b"
  by (auto simp: cmp_site_def)

lemma avl_search_None: "avl_search ss key = None \<longleftrightarrow> key \<notin> site_position ` set ss"
  by (induction ss) (auto simp: cmp_site_eq)

lemma avl_insert_node_set:
  "avl_insert_node ss item = Some ss' \<Longrightarrow> set ss' = insert item (set ss)"
  by (induction ss arbitrary: ss') (auto split: if_splits)

lemma avl_insert_node_sorted:
  "avl_insert_node ss item = Some ss' \<Longrightarrow> mutgen_sorted ss \<Longrightarrow> mutgen_sorted ss'"
proof (induction ss arbitrary: ss')
  case Nil
  then show ?case by (auto simp: mutgen_sorted_def)
next
  case (Cons s ss)
  show ?case
  proof (cases "site_position item < site_position s")
    case True
    with Cons.prems have ss': "ss' = item # s # ss" by (simp add: cmp_site_less)
    from True Cons.prems(2) show ?thesis
      by (auto simp: ss' mutgen_sorted_def intro: less_trans)
  next
    case False
    with Cons.prems obtain tl' where tl': "avl_insert_node ss item = Some tl'"
      and ss': "ss' = s # tl'" and gt: "site_position s < site_position item"
      by (auto simp: cmp_site_less cmp_site_eq split: if_splits)
    from Cons.prems(2) have "mutgen_sorted ss" by (simp add: mutgen_sorted_def)
    with Cons.IH [OF tl'] have "mutgen_sorted tl'" .
    moreover have "set tl' = insert item (set ss)" using tl' by (rule avl_insert_node_set)
    ultimately show ?thesis
      using Cons.prems(2) gt by (auto simp: ss' mutgen_sorted_def)
  qed
qed

lemma avl_insert_node_fresh:
  "key \<notin> site_position ` set ss \<Longrightarrow> site_position item = key \<Longrightarrow>
     \<exists>ss'. avl_insert_node ss item = Some ss'"
  by (induction ss) (auto simp: cmp_site_eq)

lemma mutgen_sorted_distinct:
  "mutgen_sorted ss \<Longrightarrow> distinct (map site_position ss)"
  by (simp add: mutgen_sorted_def strict_sorted_iff)

subsection \<open>Placing mutations\<close>

lemma mutgen_draw_position_Some:
  assumes "mutgen_draw_position gsl sites left right rng = Some y"
  shows "avl_search sites (fst y) = None"
  by (rule mutgen_draw_position.raw_induct
        [where P = "\<lambda>gsl sites left right rng y. avl_search sites (fst y) = None", OF _ assms])
     (auto split: prod.splits if_splits)

lemma mutgen_draw_position_free:
  "mutgen_draw_position gsl sites left right rng = Some (position, rng') \<Longrightarrow>
     position \<notin> site_position ` set sites"
  using mutgen_draw_position_Some [of gsl sites left right rng "(position, rng')"]
  by (simp add: avl_search_None)

lemma mutgen_add_mutation_None:
  "mutgen_add_mutation self node position a d = (None, self') \<Longrightarrow>
     avl_insert_node (mutgen_sites self) (mutgen_new_site node position a d)
       = Some (mutgen_sites self')"
  by (auto simp: mutgen_add_mutation_def Let_def split: prod.splits if_splits option.splits)

lemma mutgen_add_mutation_rng:
  "mutgen_add_mutation (self\<lparr>mutgen_rng := g\<rparr>) node position a d = (None, self') \<Longrightarrow>
     avl_insert_node (mutgen_sites self) (mutgen_new_site node position a d)
       = Some (mutgen_sites self')"
  using mutgen_add_mutation_None [of "self\<lparr>mutgen_rng := g\<rparr>" node position a d self']
  by simp

lemma mutgen_place_mutations_inv:
  assumes "mutgen_place_mutations gsl types k child l r n self = Some (None, self')"
    and "mutgen_sorted (mutgen_sites self)"
    and "\<forall>s \<in> set (mutgen_sites self). P s"
    and new: "\<And>p ty. l \<le> p \<Longrightarrow> p < r \<Longrightarrow> ty \<in> set types \<Longrightarrow>
           P (mutgen_new_site child p (ancestral_state ty) (derived_state ty))"
  shows "mutgen_sorted (mutgen_sites self') \<and> (\<forall>s \<in> set (mutgen_sites self'). P s)"
  using assms(1-3)
proof (induction n arbitrary: self)
  case 0
  then show ?case by simp
next
  case (Suc n)
  from Suc.prems(1) obtain p rng1 ty rng2 mid where
    range: "l \<le> p" "p < r" and
    ty: "ty < length types" and
    add: "mutgen_add_mutation (self\<lparr>mutgen_rng := rng2\<rparr>) child p
            (ancestral_state (types ! ty)) (derived_state (types ! ty)) = (None, mid)" and
    rest: "mutgen_place_mutations gsl types k child l r n mid = Some (None, self')"
    by (auto split: option.splits prod.splits if_splits)
  let ?site = "mutgen_new_site child p (ancestral_state (types ! ty)) (derived_state (types ! ty))"
  from add have ins: "avl_insert_node (mutgen_sites self) ?site = Some (mutgen_sites mid)"
    by (rule mutgen_add_mutation_rng)
  from ins Suc.prems(2) have sorted: "mutgen_sorted (mutgen_sites mid)"
    by (rule avl_insert_node_sorted)
  from ty have "types ! ty \<in> set types" by simp
  with range have "P ?site" by (intro new)
  with avl_insert_node_set [OF ins] Suc.prems(3)
  have all: "\<forall>s \<in> set (mutgen_sites mid). P s" by simp
  from Suc.IH [OF rest sorted all] show ?case .
qed

lemma mutgen_place_edges_inv:
  assumes "mutgen_place_edges gsl types k time es self = Some (None, self')"
    and "mutgen_sorted (mutgen_sites self)"
    and "\<forall>s \<in> set (mutgen_sites self). P s"
    and new: "\<And>e p ty. e \<in> set es \<Longrightarrow> edge_left e \<le> p \<Longrightarrow> p < edge_right e \<Longrightarrow>
           ty \<in> set types \<Longrightarrow>
           P (mutgen_new_site (edge_child e) p (ancestral_state ty) (derived_state ty))"
  shows "mutgen_sorted (mutgen_sites self') \<and> (\<forall>s \<in> set (mutgen_sites self'). P s)"
  using assms
proof (induction es arbitrary: self)
  case Nil
  then show ?case by simp
next
  case (Cons e es)
  from Cons.prems(1) obtain n rng1 mid where
    place: "mutgen_place_mutations gsl types k (edge_child e) (edge_left e) (edge_right e) n
              (self\<lparr>mutgen_rng := rng1\<rparr>) = Some (None, mid)" and
    rest: "mutgen_place_edges gsl types k time es mid = Some (None, self')"
    by (auto simp: Let_def split: option.splits prod.splits if_splits sum.splits)
  have one: "mutgen_sorted (mutgen_sites mid) \<and> (\<forall>s \<in> set (mutgen_sites mid). P s)"
    using place
  proof (rule mutgen_place_mutations_inv)
    show "mutgen_sorted (mutgen_sites (self\<lparr>mutgen_rng := rng1\<rparr>))"
      using Cons.prems(2) by simp
    show "\<forall>s \<in> set (mutgen_sites (self\<lparr>mutgen_rng := rng1\<rparr>)). P s"
      using Cons.prems(3) by simp
    show "P (mutgen_new_site (edge_child e) p (ancestral_state ty) (derived_state ty))"
      if "edge_left e \<le> p" "p < edge_right e" "ty \<in> set types" for p ty
      using that by (intro Cons.prems(4)) simp_all
  qed
  show ?case
    using rest
  proof (rule Cons.IH)
    show "mutgen_sorted (mutgen_sites mid)" using one by simp
    show "\<forall>s \<in> set (mutgen_sites mid). P s" using one by simp
    show "P (mutgen_new_site (edge_child e') p (ancestral_state ty) (derived_state ty))"
      if "e' \<in> set es" "edge_left e' \<le> p" "p < edge_right e'" "ty \<in> set types" for e' p ty
      using that by (intro Cons.prems(4)) simp_all
  qed
qed

subsection \<open>Populating the tables\<close>

lemma mutgen_populate_mutations_rows:
  "mutgen_populate_mutations mt site_id ms = (ret, mt') \<Longrightarrow>
     \<exists>k \<le> length ms.
       mutation_rows mt' = mutation_rows mt @ map (mutation_row_of site_id) (take k ms)
       \<and> (ret = None \<longrightarrow> k = length ms)"
proof (induction ms arbitrary: mt)
  case Nil
  then show ?case by simp
next
  case (Cons m ms)
  show ?case
  proof (cases "length (mutation_rows mt) < mutation_capacity mt")
    case False
    with Cons.prems have "mt' = mt" "ret = Some MSP_ERR_NO_MEMORY"
      by (simp_all add: mutation_table_add_row_def)
    then show ?thesis by (intro exI [of _ 0]) simp
  next
    case True
    let ?mt1 = "mt\<lparr>mutation_rows := mutation_rows mt @ [mutation_row_of site_id m]\<rparr>"
    from True Cons.prems have "mutgen_populate_mutations ?mt1 site_id ms = (ret, mt')"
      by (simp add: mutation_table_add_row_def mutation_row_of_def)
    from Cons.IH [OF this] obtain k where "k \<le> length ms"
      "mutation_rows mt' = mutation_rows ?mt1 @ map (mutation_row_of site_id) (take k ms)"
      "ret = None \<longrightarrow> k = length ms" by blast
    then show ?thesis by (intro exI [of _ "Suc k"]) simp
  qed
qed

lemma mutgen_populate_sites_rows:
  "mutgen_populate_sites ss st mt = (ret, st', mt') \<Longrightarrow>
     \<exists>k k'.
       site_rows st' = site_rows st @ take k (map site_row_of ss)
       \<and> mutation_rows mt' =
           mutation_rows mt @ take k' (mutgen_mutation_rows (length (site_rows st)) ss)
       \<and> (ret = None \<longrightarrow>
             k = length ss \<and> k' = length (mutgen_mutation_rows (length (site_rows st)) ss))"
proof (induction ss arbitrary: st mt)
  case Nil
  then show ?case by simp
next
  case (Cons s ss)
  let ?id = "length (site_rows st)"
  show ?case
  proof (cases "length (site_rows st) < site_capacity st")
    case False
    with Cons.prems have "st' = st" "mt' = mt" "ret = Some MSP_ERR_NO_MEMORY"
      by (simp_all add: site_table_add_row_def)
    then show ?thesis by (intro exI [of _ 0]) simp
  next
    case True
    let ?st1 = "st\<lparr>site_rows := site_rows st @ [site_row_of s]\<rparr>"
    obtain r1 mt1 where one: "mutgen_populate_mutations mt ?id (site_mutations s) = (r1, mt1)"
      by (cases "mutgen_populate_mutations mt ?id (site_mutations s)")
    from mutgen_populate_mutations_rows [OF one] obtain j where j: "j \<le> length (site_mutations s)"
      and rows1: "mutation_rows mt1 =
        mutation_rows mt @ map (mutation_row_of ?id) (take j (site_mutations s))"
      and all1: "r1 = None \<longrightarrow> j = length (site_mutations s)" by blast
    show ?thesis
    proof (cases r1)
      case (Some e)
      with True one Cons.prems have "st' = ?st1" "mt' = mt1" "ret = Some e"
        by (simp_all add: site_table_add_row_def site_row_of_def)
      with rows1 j show ?thesis
        by (intro exI [of _ "Suc 0"] exI [of _ j]) (simp add: take_map)
    next
      case None
      with True one Cons.prems have "mutgen_populate_sites ss ?st1 mt1 = (ret, st', mt')"
        by (simp add: site_table_add_row_def site_row_of_def)
      from Cons.IH [OF this] obtain k k' where
        s: "site_rows st' = site_rows ?st1 @ take k (map site_row_of ss)" and
        m: "mutation_rows mt' =
              mutation_rows mt1 @ take k' (mutgen_mutation_rows (length (site_rows ?st1)) ss)" and
        a: "ret = None \<longrightarrow>
              k = length ss \<and> k' = length (mutgen_mutation_rows (length (site_rows ?st1)) ss)"
        by blast
      from None all1 have jj: "j = length (site_mutations s)" by simp
      show ?thesis
        using s m a rows1 jj
        by (intro exI [of _ "Suc k"] exI [of _ "length (site_mutations s) + k'"]) simp
    qed
  qed
qed

lemma mutgen_mutation_rows_single:
  "\<forall>s \<in> set ss. length (site_mutations s) = 1 \<Longrightarrow>
     length (mutgen_mutation_rows base ss) = length ss
     \<and> (\<forall>j < length ss.
           mutgen_mutation_rows base ss ! j =
             mutation_row_of (base + j) (hd (site_mutations (ss ! j))))"
proof (induction ss arbitrary: base)
  case Nil
  then show ?case by simp
next
  case (Cons s ss)
  from Cons.prems obtain m where m: "site_mutations s = [m]"
    by (cases "site_mutations s") auto
  from Cons.prems have "\<forall>s \<in> set ss. length (site_mutations s) = 1" by simp
  from Cons.IH [OF this, of "Suc base"] show ?case
    by (auto simp: m nth_Cons split: nat.splits)
qed

subsection \<open>The whole call\<close>

lemma mutgen_generate_reset:
  "mutgen_generate gsl self tables 0 =
     mutgen_generate_body gsl (mutgen_reset self) (tables_cleared tables)"
  by (simp add: mutgen_generate_def mutgen_generate_body_def site_table_clear_def
      mutation_table_clear_def Let_def mutgen_reset_def tables_cleared_def
      mutgen_mutation_types_def mutgen_num_mutation_types_def mutgen_populate_tables_def
      split: option.splits prod.splits)

lemma mutgen_generate_unfold:
  "mutgen_generate gsl self tables 0 =
     (case mutgen_place_edges gsl (mutgen_mutation_types self) (mutgen_num_mutation_types self)
             (tc_node_time tables) (tc_edges tables) (mutgen_reset self) of
        None \<Rightarrow> None
      | Some (Some err, self2) \<Rightarrow> Some (Some err, self2, tables_cleared tables)
      | Some (None, self2) \<Rightarrow>
          (case mutgen_populate_sites (mutgen_sites self2)
                  (tc_sites (tables_cleared tables)) (tc_mutations (tables_cleared tables)) of
             (ret, sites2, mutations2) \<Rightarrow>
               Some (ret, self2, tables\<lparr>tc_sites := sites2, tc_mutations := mutations2\<rparr>)))"
  by (simp add: mutgen_generate_def site_table_clear_def mutation_table_clear_def Let_def
      mutgen_reset_def tables_cleared_def mutgen_mutation_types_def mutgen_num_mutation_types_def
      mutgen_populate_tables_def
      split: option.splits prod.splits)

lemma mutgen_generate_flags:
  "mutgen_generate gsl self tables flags = Some (None, self', tables') \<Longrightarrow> flags = 0"
  by (auto simp: mutgen_generate_def split: if_splits)

lemma mutgen_generate_success:
  assumes "mutgen_generate gsl self tables flags = Some (None, self', tables')"
  shows "mutgen_place_edges gsl (mutgen_mutation_types self) (mutgen_num_mutation_types self)
           (tc_node_time tables) (tc_edges tables) (mutgen_reset self) = Some (None, self')"
    and "site_rows (tc_sites tables') = map site_row_of (mutgen_sites self')"
    and "mutation_rows (tc_mutations tables') = mutgen_mutation_rows 0 (mutgen_sites self')"
proof -
  from assms have flags: "flags = 0" by (rule mutgen_generate_flags)
  from assms [unfolded flags mutgen_generate_unfold]
  obtain sites2 mutations2 where
    place: "mutgen_place_edges gsl (mutgen_mutation_types self) (mutgen_num_mutation_types self)
           (tc_node_time tables) (tc_edges tables) (mutgen_reset self) = Some (None, self')" and
    pop: "mutgen_populate_sites (mutgen_sites self')
            (tc_sites (tables_cleared tables)) (tc_mutations (tables_cleared tables))
          = (None, sites2, mutations2)" and
    t: "tables' = tables\<lparr>tc_sites := sites2, tc_mutations := mutations2\<rparr>"
    by (auto split: option.splits prod.splits)
  show "mutgen_place_edges gsl (mutgen_mutation_types self) (mutgen_num_mutation_types self)
           (tc_node_time tables) (tc_edges tables) (mutgen_reset self) = Some (None, self')"
    by (fact place)
  from mutgen_populate_sites_rows [OF pop]
  show "site_rows (tc_sites tables') = map site_row_of (mutgen_sites self')"
    and "mutation_rows (tc_mutations tables') = mutgen_mutation_rows 0 (mutgen_sites self')"
    by (auto simp: t tables_cleared_def)
qed

lemma mutgen_generate_frame:
  "mutgen_generate gsl
     (self\<lparr>mutgen_sites := old_sites,
           mutgen_allocator := (mutgen_allocator self)\<lparr>arena_used := old_used\<rparr>\<rparr>)
     (tables\<lparr>tc_sites := (tc_sites tables)\<lparr>site_rows := old_site_rows\<rparr>,
             tc_mutations := (tc_mutations tables)\<lparr>mutation_rows := old_mutation_rows\<rparr>\<rparr>) 0
   = mutgen_generate gsl self tables 0"
proof -
  have "mutgen_reset (self\<lparr>mutgen_sites := old_sites,
           mutgen_allocator := (mutgen_allocator self)\<lparr>arena_used := old_used\<rparr>\<rparr>)
      = mutgen_reset self"
    by (simp add: mutgen_reset_def block_allocator_reset_def)
  moreover have "tables_cleared
       (tables\<lparr>tc_sites := (tc_sites tables)\<lparr>site_rows := old_site_rows\<rparr>,
               tc_mutations := (tc_mutations tables)\<lparr>mutation_rows := old_mutation_rows\<rparr>\<rparr>)
      = tables_cleared tables"
    by (simp add: tables_cleared_def)
  ultimately show ?thesis by (simp only: mutgen_generate_reset)
qed

lemma mutgen_generate_prefix:
  assumes "mutgen_generate gsl self tables 0 = Some (ret, self', tables')"
  shows "prefix (site_rows (tc_sites tables')) (map site_row_of (mutgen_sites self'))
       \<and> prefix (mutation_rows (tc_mutations tables')) (mutgen_mutation_rows 0 (mutgen_sites self'))
       \<and> (ret = None \<longrightarrow>
             site_rows (tc_sites tables') = map site_row_of (mutgen_sites self')
             \<and> mutation_rows (tc_mutations tables') = mutgen_mutation_rows 0 (mutgen_sites self'))"
proof (cases "mutgen_place_edges gsl (mutgen_mutation_types self) (mutgen_num_mutation_types self)
             (tc_node_time tables) (tc_edges tables) (mutgen_reset self)")
  case None
  with assms show ?thesis by (simp add: mutgen_generate_unfold)
next
  case (Some res)
  obtain r self2 where res: "res = (r, self2)" by (cases res)
  show ?thesis
  proof (cases r)
    case (Some err)
    with assms \<open>_ = Some res\<close> res have "tables' = tables_cleared tables" "ret = Some err"
      by (simp_all add: mutgen_generate_unfold)
    then show ?thesis by (simp add: tables_cleared_def)
  next
    case None
    with assms \<open>_ = Some res\<close> res obtain sites2 mutations2 where
      pop: "mutgen_populate_sites (mutgen_sites self')
              (tc_sites (tables_cleared tables)) (tc_mutations (tables_cleared tables))
            = (ret, sites2, mutations2)" and
      t: "tables' = tables\<lparr>tc_sites := sites2, tc_mutations := mutations2\<rparr>"
      by (auto simp: mutgen_generate_unfold split: prod.splits)
    from mutgen_populate_sites_rows [OF pop] obtain k k' where
      "site_rows sites2 = take k (map site_row_of (mutgen_sites self'))"
      "mutation_rows mutations2 = take k' (mutgen_mutation_rows 0 (mutgen_sites self'))"
      "ret = None \<longrightarrow> k = length (mutgen_sites self')
          \<and> k' = length (mutgen_mutation_rows 0 (mutgen_sites self'))"
      by (auto simp: tables_cleared_def)
    then show ?thesis by (auto simp: t take_is_prefix)
  qed
qed

lemma acgt_mutation_types_differ:
  "ty \<in> set acgt_mutation_types \<Longrightarrow>
     take 1 (ancestral_state ty) \<noteq> take 1 (derived_state ty)"
  by (auto simp: acgt_mutation_types_def)

lemma binary_mutation_types_states:
  "ty \<in> set binary_mutation_types \<Longrightarrow>
     take 1 (ancestral_state ty) = ''0'' \<and> take 1 (derived_state ty) = ''1''"
  by (auto simp: binary_mutation_types_def)

subsection \<open>Three runs of the concrete generator\<close>

text \<open>
  With the binary alphabet, with the nucleotide alphabet, and with a site table that
  cannot grow beyond one row.
\<close>

lemma ex_run_binary:
  "map_option (\<lambda>(ret, self', tables').
       (ret, map row_position (site_rows (tc_sites tables')),
        map row_ancestral_state (site_rows (tc_sites tables')),
        map row_derived_state (mutation_rows (tc_mutations tables'))))
     (mutgen_generate ex_gsl (ex_mutgen 0) (ex_tables 100) 0)
   = Some (None, [1 / 5, 1 / 4, 1 / 3, 1 / 2], [''0'', ''0'', ''0'', ''0''],
           [''1'', ''1'', ''1'', ''1''])"
  by code_simp

lemma ex_run_nucleotide:
  "map_option (\<lambda>(ret, self', tables').
       (ret, map row_ancestral_state (site_rows (tc_sites tables')),
        map row_derived_state (mutation_rows (tc_mutations tables'))))
     (mutgen_generate ex_gsl (ex_mutgen 1) (ex_tables 100) 0)
   = Some (None, [''A'', ''T'', ''C'', ''A''], [''G'', ''A'', ''T'', ''T''])"
  by code_simp

lemma ex_run_no_memory:
  "map_option (\<lambda>(ret, self', tables').
       (ret, map site_position (mutgen_sites self'),
        map row_position (site_rows (tc_sites tables')),
        map row_site (mutation_rows (tc_mutations tables'))))
     (mutgen_generate ex_gsl (ex_mutgen 0) (ex_tables 1) 0)
   = Some (Some MSP_ERR_NO_MEMORY, [1 / 5, 1 / 4, 1 / 3, 1 / 2], [1 / 5], [0])"
  by code_simp

subsection \<open>Positions of the emitted sites\<close>

text \<open>
  Claim C1. After a successful \<open>mutgen_generate\<close> on a genealogy whose edge intervals lie
  within \<open>[0, sequence_length)\<close>, the positions of the site table increase strictly from
  row to row, no two rows share a position, and every position lies in
  \<open>[0, sequence_length)\<close>. (The call succeeds only if every child index passes the
  assertion on the node table.)
\<close>

theorem mutgen_generate_positions:
  assumes gen: "mutgen_generate gsl self tables flags = Some (None, self', tables')"
    and edges: "\<forall>e \<in> set (tc_edges tables). 0 \<le> edge_left e \<and> edge_right e \<le> sequence_length"
  shows "sorted_wrt (<) (map row_position (site_rows (tc_sites tables')))
       \<and> distinct (map row_position (site_rows (tc_sites tables')))
       \<and> (\<forall>row \<in> set (site_rows (tc_sites tables')).
             0 \<le> row_position row \<and> row_position row < sequence_length)"
proof -
  let ?P = "\<lambda>s. 0 \<le> site_position s \<and> site_position s < sequence_length"
  note g = mutgen_generate_success [OF gen]
  have inv: "mutgen_sorted (mutgen_sites self') \<and> (\<forall>s \<in> set (mutgen_sites self'). ?P s)"
    using g(1)
  proof (rule mutgen_place_edges_inv)
    show "mutgen_sorted (mutgen_sites (mutgen_reset self))"
      by (simp add: mutgen_reset_def mutgen_sorted_def)
    show "\<forall>s \<in> set (mutgen_sites (mutgen_reset self)). ?P s"
      by (simp add: mutgen_reset_def)
    show "?P (mutgen_new_site (edge_child e) p (ancestral_state ty) (derived_state ty))"
      if "e \<in> set (tc_edges tables)" "edge_left e \<le> p" "p < edge_right e" for e p ty
      using that edges by (fastforce simp: mutgen_new_site_def)
  qed
  have pos: "map row_position (site_rows (tc_sites tables')) = map site_position (mutgen_sites self')"
    by (simp add: g(2) site_row_of_def comp_def)
  have "sorted_wrt (<) (map row_position (site_rows (tc_sites tables')))"
    using inv by (simp add: pos mutgen_sorted_def)
  moreover have "distinct (map row_position (site_rows (tc_sites tables')))"
    using inv by (simp add: pos mutgen_sorted_distinct)
  moreover have "\<forall>row \<in> set (site_rows (tc_sites tables')).
      0 \<le> row_position row \<and> row_position row < sequence_length"
    using inv by (auto simp: g(2) site_row_of_def)
  ultimately show ?thesis by blast
qed

text \<open>
  The theorem at the run with the binary alphabet, which emits the positions 1/5, 1/4,
  1/3 and 1/2 on a sequence of length 1.
\<close>

theorem mutgen_generate_positions_witness:
  "\<exists>self' tables'.
     mutgen_generate ex_gsl (ex_mutgen 0) (ex_tables 100) 0 = Some (None, self', tables')
     \<and> list_all (\<lambda>e. 0 \<le> edge_left e \<and> edge_right e \<le> 1) (tc_edges (ex_tables 100))
     \<and> map row_position (site_rows (tc_sites tables')) = [1 / 5, 1 / 4, 1 / 3, 1 / 2]
     \<and> sorted_wrt (<) (map row_position (site_rows (tc_sites tables')))
     \<and> distinct (map row_position (site_rows (tc_sites tables')))
     \<and> list_all (\<lambda>row. 0 \<le> row_position row \<and> row_position row < 1)
          (site_rows (tc_sites tables'))"
proof -
  from ex_run_binary obtain self' tables' where
    gen: "mutgen_generate ex_gsl (ex_mutgen 0) (ex_tables 100) 0 = Some (None, self', tables')"
    and rows: "map row_position (site_rows (tc_sites tables')) = [1 / 5, 1 / 4, 1 / 3, 1 / 2]"
    by (auto split: prod.splits)
  have edges: "\<forall>e \<in> set (tc_edges (ex_tables 100)). 0 \<le> edge_left e \<and> edge_right e \<le> 1"
    by (simp add: ex_tables_def)
  from mutgen_generate_positions [OF gen edges] gen rows edges
  show ?thesis by (auto simp: list_all_iff)
qed

subsection \<open>States of the emitted sites and mutations\<close>

text \<open>
  Claim C6. After a successful \<open>mutgen_generate\<close> the mutation table has one row for each
  row of the site table, row \<open>j\<close> of the one belonging to row \<open>j\<close> of the other. With the
  binary alphabet the site's ancestral state is \<open>0\<close> and the mutation's derived state is
  \<open>1\<close>; with the nucleotide alphabet (indeed with every alphabet) the ancestral state
  differs from the derived state.
\<close>

theorem mutgen_generate_states:
  assumes gen: "mutgen_generate gsl self tables flags = Some (None, self', tables')"
  shows "length (mutation_rows (tc_mutations tables')) = length (site_rows (tc_sites tables'))
       \<and> (\<forall>j < length (site_rows (tc_sites tables')).
             row_site (mutation_rows (tc_mutations tables') ! j) = j
             \<and> row_ancestral_state (site_rows (tc_sites tables') ! j)
                 \<noteq> row_derived_state (mutation_rows (tc_mutations tables') ! j)
             \<and> (mutgen_alphabet self = MSP_ALPHABET_BINARY \<longrightarrow>
                   row_ancestral_state (site_rows (tc_sites tables') ! j) = ''0''
                   \<and> row_derived_state (mutation_rows (tc_mutations tables') ! j) = ''1''))"
proof -
  let ?types = "mutgen_mutation_types self"
  let ?ss = "mutgen_sites self'"
  note g = mutgen_generate_success [OF gen]
  have inv: "mutgen_sorted ?ss \<and> (\<forall>s \<in> set ?ss. mutgen_site_typed ?types s)"
    using g(1)
  proof (rule mutgen_place_edges_inv)
    show "mutgen_sorted (mutgen_sites (mutgen_reset self))"
      by (simp add: mutgen_reset_def mutgen_sorted_def)
    show "\<forall>s \<in> set (mutgen_sites (mutgen_reset self)). mutgen_site_typed ?types s"
      by (simp add: mutgen_reset_def)
    show "mutgen_site_typed ?types
        (mutgen_new_site (edge_child e) p (ancestral_state ty) (derived_state ty))"
      if "ty \<in> set ?types" for e p ty
      using that by (auto simp: mutgen_site_typed_def)
  qed
  then have single: "\<forall>s \<in> set ?ss. length (site_mutations s) = 1"
    by (auto simp: mutgen_site_typed_def mutgen_new_site_def)
  note rows = mutgen_mutation_rows_single [OF single, of 0]
  have len: "length (mutation_rows (tc_mutations tables')) = length (site_rows (tc_sites tables'))"
    using rows by (simp add: g(2) g(3))
  have row: "row_site (mutation_rows (tc_mutations tables') ! j) = j
      \<and> row_ancestral_state (site_rows (tc_sites tables') ! j)
          \<noteq> row_derived_state (mutation_rows (tc_mutations tables') ! j)
      \<and> (mutgen_alphabet self = MSP_ALPHABET_BINARY \<longrightarrow>
            row_ancestral_state (site_rows (tc_sites tables') ! j) = ''0''
            \<and> row_derived_state (mutation_rows (tc_mutations tables') ! j) = ''1'')"
    if j: "j < length (site_rows (tc_sites tables'))" for j
  proof -
    from j have j': "j < length ?ss" by (simp add: g(2))
    then have "?ss ! j \<in> set ?ss" by simp
    with inv obtain ty node position where ty: "ty \<in> set ?types"
      and s: "?ss ! j = mutgen_new_site node position (ancestral_state ty) (derived_state ty)"
      by (auto simp: mutgen_site_typed_def)
    have srow: "row_ancestral_state (site_rows (tc_sites tables') ! j) = take 1 (ancestral_state ty)"
      using j' by (simp add: g(2) s site_row_of_def mutgen_new_site_def)
    have mrow: "mutation_rows (tc_mutations tables') ! j
        = mutation_row_of j (hd (site_mutations (?ss ! j)))"
      using rows j' by (simp add: g(3))
    have drow: "row_derived_state (mutation_rows (tc_mutations tables') ! j)
        = take 1 (derived_state ty)"
      by (simp add: mrow s mutation_row_of_def mutgen_new_site_def)
    have site: "row_site (mutation_rows (tc_mutations tables') ! j) = j"
      by (simp add: mrow mutation_row_of_def)
    have differ: "take 1 (ancestral_state ty) \<noteq> take 1 (derived_state ty)"
      using ty binary_mutation_types_states [of ty] acgt_mutation_types_differ [of ty]
      by (auto simp: mutgen_mutation_types_def split: if_splits)
    have binary: "take 1 (ancestral_state ty) = ''0'' \<and> take 1 (derived_state ty) = ''1''"
      if "mutgen_alphabet self = MSP_ALPHABET_BINARY"
      using that ty binary_mutation_types_states [of ty]
      by (simp add: mutgen_mutation_types_def MSP_ALPHABET_BINARY_def)
    from site differ binary show ?thesis by (simp add: srow drow)
  qed
  from len row show ?thesis by blast
qed

text \<open>
  The theorem at the runs with the binary and with the nucleotide alphabet.
\<close>

theorem mutgen_generate_states_witness:
  "(\<exists>self' tables'.
      mutgen_generate ex_gsl (ex_mutgen 0) (ex_tables 100) 0 = Some (None, self', tables')
      \<and> mutgen_alphabet (ex_mutgen 0) = MSP_ALPHABET_BINARY
      \<and> length (site_rows (tc_sites tables')) = 4
      \<and> length (mutation_rows (tc_mutations tables')) = 4
      \<and> row_site (mutation_rows (tc_mutations tables') ! 3) = 3
      \<and> row_ancestral_state (site_rows (tc_sites tables') ! 3) = ''0''
      \<and> row_derived_state (mutation_rows (tc_mutations tables') ! 3) = ''1'')
   \<and> (\<exists>self' tables'.
      mutgen_generate ex_gsl (ex_mutgen 1) (ex_tables 100) 0 = Some (None, self', tables')
      \<and> length (site_rows (tc_sites tables')) = 4
      \<and> row_ancestral_state (site_rows (tc_sites tables') ! 3)
           \<noteq> row_derived_state (mutation_rows (tc_mutations tables') ! 3))"
proof -
  from ex_run_binary obtain s0 t0 where
    gen0: "mutgen_generate ex_gsl (ex_mutgen 0) (ex_tables 100) 0 = Some (None, s0, t0)"
    and rows0: "map row_position (site_rows (tc_sites t0)) = [1 / 5, 1 / 4, 1 / 3, 1 / 2]"
    by (auto split: prod.splits)
  have "length (map row_position (site_rows (tc_sites t0))) = 4" by (simp only: rows0) simp
  then have len0: "length (site_rows (tc_sites t0)) = 4" by simp
  have bin: "mutgen_alphabet (ex_mutgen 0) = MSP_ALPHABET_BINARY"
    by (simp add: ex_mutgen_def MSP_ALPHABET_BINARY_def)
  from ex_run_nucleotide obtain s1 t1 where
    gen1: "mutgen_generate ex_gsl (ex_mutgen 1) (ex_tables 100) 0 = Some (None, s1, t1)"
    and rows1: "map row_ancestral_state (site_rows (tc_sites t1)) = [''A'', ''T'', ''C'', ''A'']"
    by (auto split: prod.splits)
  have "length (map row_ancestral_state (site_rows (tc_sites t1))) = 4" by (simp only: rows1) simp
  then have len1: "length (site_rows (tc_sites t1)) = 4" by simp
  from mutgen_generate_states [OF gen0] len0 bin
  have first: "length (mutation_rows (tc_mutations t0)) = 4
      \<and> row_site (mutation_rows (tc_mutations t0) ! 3) = 3
      \<and> row_ancestral_state (site_rows (tc_sites t0) ! 3) = ''0''
      \<and> row_derived_state (mutation_rows (tc_mutations t0) ! 3) = ''1''"
    by simp
  from mutgen_generate_states [OF gen1] len1
  have second: "row_ancestral_state (site_rows (tc_sites t1) ! 3)
      \<noteq> row_derived_state (mutation_rows (tc_mutations t1) ! 3)"
    by simp
  have "\<exists>self' tables'.
      mutgen_generate ex_gsl (ex_mutgen 0) (ex_tables 100) 0 = Some (None, self', tables')
      \<and> mutgen_alphabet (ex_mutgen 0) = MSP_ALPHABET_BINARY
      \<and> length (site_rows (tc_sites tables')) = 4
      \<and> length (mutation_rows (tc_mutations tables')) = 4
      \<and> row_site (mutation_rows (tc_mutations tables') ! 3) = 3
      \<and> row_ancestral_state (site_rows (tc_sites tables') ! 3) = ''0''
      \<and> row_derived_state (mutation_rows (tc_mutations tables') ! 3) = ''1''"
    using gen0 bin len0 first by (intro exI [of _ s0] exI [of _ t0]) simp
  moreover have "\<exists>self' tables'.
      mutgen_generate ex_gsl (ex_mutgen 1) (ex_tables 100) 0 = Some (None, self', tables')
      \<and> length (site_rows (tc_sites tables')) = 4
      \<and> row_ancestral_state (site_rows (tc_sites tables') ! 3)
           \<noteq> row_derived_state (mutation_rows (tc_mutations tables') ! 3)"
    using gen1 len1 second by (intro exI [of _ s1] exI [of _ t1]) simp
  ultimately show ?thesis by (rule conjI)
qed

subsection \<open>The block size of the constructor\<close>

text \<open>
  Claim C5, amended. The claim reads: the constructor called with a zero block size
  returns a bad-parameter failure. \<open>mutgen_alloc\<close> instead replaces a zero block size by
  8192. So \<open>mutgen_alloc\<close> returns \<open>MSP_ERR_BAD_PARAM_VALUE\<close> exactly when the alphabet is
  neither the binary nor the nucleotide one; with a supported alphabet and an arena
  that can be allocated it returns a generator, whose arena has blocks of 8192 bytes
  for a zero block size and of the given size, raised to 128 if it is less, otherwise.
  A zero block size is refused, with \<open>MSP_ERR_BAD_PARAM_VALUE\<close>, by the setter
  \<open>mutgen_set_mutation_block_size\<close> of the older interface only.
\<close>

theorem mutgen_alloc_block_size:
  "(mutgen_alloc heap mutation_rate rng alphabet block_size = Inl MSP_ERR_BAD_PARAM_VALUE
      \<longleftrightarrow> \<not> (alphabet = MSP_ALPHABET_BINARY \<or> alphabet = MSP_ALPHABET_NUCLEOTIDE))
   \<and> ((alphabet = MSP_ALPHABET_BINARY \<or> alphabet = MSP_ALPHABET_NUCLEOTIDE) \<and> heap = Some capacity
        \<longrightarrow> (\<exists>self. mutgen_alloc heap mutation_rate rng alphabet block_size = Inr self
                    \<and> chunk_size (mutgen_allocator self)
                        = (if block_size = 0 then 8192 else max block_size 128)))
   \<and> mutgen_set_mutation_block_size old 0 = Inl MSP_ERR_BAD_PARAM_VALUE"
  by (auto simp: mutgen_alloc_def block_allocator_alloc_def mutgen_set_mutation_block_size_def
      Let_def split: option.splits)

text \<open>
  Claim C5 as stated fails: the constructor called with the binary alphabet and block
  size 0 returns a generator.
\<close>

theorem mutgen_alloc_block_size_counterexample:
  "mutgen_alloc (Some 100) 1 (0 :: nat) MSP_ALPHABET_BINARY 0
     = Inr \<lparr>mutgen_alphabet = 0, mutgen_mutation_rate = 1, mutgen_rng = 0, mutgen_sites = [],
            mutgen_allocator = \<lparr>chunk_size = 8192, arena_capacity = 100, arena_used = 0\<rparr>\<rparr>"
  by (simp add: mutgen_alloc_def block_allocator_alloc_def MSP_ALPHABET_BINARY_def)

text \<open>
  The theorem at the nucleotide alphabet with block size 0, and at the unsupported
  alphabet 2.
\<close>

theorem mutgen_alloc_block_size_witness:
  "mutgen_alloc (Some 100) 1 (0 :: nat) MSP_ALPHABET_NUCLEOTIDE 0 \<noteq> Inl MSP_ERR_BAD_PARAM_VALUE
   \<and> (\<exists>self. mutgen_alloc (Some 100) 1 (0 :: nat) MSP_ALPHABET_NUCLEOTIDE 0 = Inr self
          \<and> chunk_size (mutgen_allocator self) = 8192)
   \<and> mutgen_alloc (Some 100) 1 (0 :: nat) 2 0 = Inl MSP_ERR_BAD_PARAM_VALUE"
  using mutgen_alloc_block_size [of "Some 100" 1 "0 :: nat" MSP_ALPHABET_NUCLEOTIDE 0 100]
    mutgen_alloc_block_size [of "Some 100" 1 "0 :: nat" 2 0 100]
  by (simp add: MSP_ALPHABET_NUCLEOTIDE_def MSP_ALPHABET_BINARY_def)

subsection \<open>What a call leaves in the tables\<close>

text \<open>
  Claim C10. \<open>mutgen_generate\<close> empties the site index, resets the arena and clears both
  tables before it places a mutation. So what a call returns does not depend on the
  sites, the arena use or the table rows an earlier call left behind; on every return
  the rows of the site table and of the mutation table are an initial part of the rows
  of the sites this call has placed, all of them when the call succeeds; and the call
  is not atomic: some failing call leaves a non-empty, incomplete site table.
\<close>

theorem mutgen_generate_discards_previous:
  "mutgen_generate gsl
     (self\<lparr>mutgen_sites := old_sites,
           mutgen_allocator := (mutgen_allocator self)\<lparr>arena_used := old_used\<rparr>\<rparr>)
     (tables\<lparr>tc_sites := (tc_sites tables)\<lparr>site_rows := old_site_rows\<rparr>,
             tc_mutations := (tc_mutations tables)\<lparr>mutation_rows := old_mutation_rows\<rparr>\<rparr>) 0
   = mutgen_generate gsl self tables 0
   \<and> (mutgen_generate gsl self tables 0 = Some (ret, self', tables') \<longrightarrow>
        prefix (site_rows (tc_sites tables')) (map site_row_of (mutgen_sites self'))
        \<and> prefix (mutation_rows (tc_mutations tables'))
             (mutgen_mutation_rows 0 (mutgen_sites self'))
        \<and> (ret = None \<longrightarrow>
              site_rows (tc_sites tables') = map site_row_of (mutgen_sites self')
              \<and> mutation_rows (tc_mutations tables')
                  = mutgen_mutation_rows 0 (mutgen_sites self')))
   \<and> (\<exists>(g :: nat gsl_rng) s t e s' t'.
         mutgen_generate g s t 0 = Some (Some e, s', t') \<and> site_rows (tc_sites t') \<noteq> []
         \<and> site_rows (tc_sites t') \<noteq> map site_row_of (mutgen_sites s'))"
proof -
  from ex_run_no_memory obtain s' t' where
    run: "mutgen_generate ex_gsl (ex_mutgen 0) (ex_tables 1) 0 = Some (Some MSP_ERR_NO_MEMORY, s', t')"
    and sites: "map site_position (mutgen_sites s') = [1 / 5, 1 / 4, 1 / 3, 1 / 2]"
    and rows: "map row_position (site_rows (tc_sites t')) = [1 / 5]"
    by (auto split: prod.splits)
  from rows have ne: "site_rows (tc_sites t') \<noteq> []" by auto
  have "length (map row_position (site_rows (tc_sites t'))) = 1" by (simp only: rows) simp
  then have one: "length (site_rows (tc_sites t')) = 1" by simp
  have "length (map site_position (mutgen_sites s')) = 4" by (simp only: sites) simp
  then have four: "length (map site_row_of (mutgen_sites s')) = 4" by simp
  have "site_rows (tc_sites t') \<noteq> map site_row_of (mutgen_sites s')"
  proof
    assume "site_rows (tc_sites t') = map site_row_of (mutgen_sites s')"
    then have "length (site_rows (tc_sites t')) = length (map site_row_of (mutgen_sites s'))"
      by (rule arg_cong)
    with one four show False by simp
  qed
  with run ne have "\<exists>(g :: nat gsl_rng) s t e s' t'.
         mutgen_generate g s t 0 = Some (Some e, s', t') \<and> site_rows (tc_sites t') \<noteq> []
         \<and> site_rows (tc_sites t') \<noteq> map site_row_of (mutgen_sites s')"
    by blast
  then show ?thesis
    using mutgen_generate_prefix [of gsl self tables ret self' tables']
    by (simp only: mutgen_generate_frame) blast
qed

text \<open>
  The theorem at the run whose site table cannot grow beyond one row: it fails with
  \<open>MSP_ERR_NO_MEMORY\<close>, the earlier row at position 1/2 is gone, and of the four sites
  placed only the first, at 1/5, has its row.
\<close>

theorem mutgen_generate_discards_previous_witness:
  "\<exists>self' tables'.
     mutgen_generate ex_gsl (ex_mutgen 0) (ex_tables 1) 0
       = Some (Some MSP_ERR_NO_MEMORY, self', tables')
     \<and> map row_position (site_rows (tc_sites (ex_tables 1))) = [1 / 2]
     \<and> map row_position (site_rows (tc_sites tables')) = [1 / 5]
     \<and> map site_position (mutgen_sites self') = [1 / 5, 1 / 4, 1 / 3, 1 / 2]
     \<and> prefix (site_rows (tc_sites tables')) (map site_row_of (mutgen_sites self'))
     \<and> prefix (mutation_rows (tc_mutations tables'))
          (mutgen_mutation_rows 0 (mutgen_sites self'))"
proof -
  from ex_run_no_memory obtain s' t' where
    run: "mutgen_generate ex_gsl (ex_mutgen 0) (ex_tables 1) 0 = Some (Some MSP_ERR_NO_MEMORY, s', t')"
    and sites: "map site_position (mutgen_sites s') = [1 / 5, 1 / 4, 1 / 3, 1 / 2]"
    and rows: "map row_position (site_rows (tc_sites t')) = [1 / 5]"
    by (auto split: prod.splits)
  have old: "map row_position (site_rows (tc_sites (ex_tables 1))) = [1 / 2]"
    by (simp add: ex_tables_def)
  from mutgen_generate_discards_previous
    [where gsl = ex_gsl and self = "ex_mutgen 0" and tables = "ex_tables 1"
       and ret = "Some MSP_ERR_NO_MEMORY" and self' = s' and tables' = t'] run
  have "prefix (site_rows (tc_sites t')) (map site_row_of (mutgen_sites s'))
      \<and> prefix (mutation_rows (tc_mutations t')) (mutgen_mutation_rows 0 (mutgen_sites s'))"
    by blast
  with run old rows sites show ?thesis
    by (intro exI [of _ s'] exI [of _ t']) simp
qed

end
